theory Spec2Isabelle
  imports Main "HOL-Library.Sublist"
begin

section \<open>JavaScript strings, arrays and insertion-ordered maps\<close>

text \<open>
  Strings are lists of 8-bit characters. HTTP header values reach the program decoded as
  Latin-1, one character per byte; bodies are taken as their UTF-8 bytes. Every pattern
  the program looks for is ASCII, so matching on bytes finds the same positions.
\<close>

text \<open>\<^verbatim>\<open>String.prototype.trim\<close>: the white space of ECMAScript that fits in one byte
  (TAB, LF, VT, FF, CR, SP and NBSP).\<close>

definition js_whitespace :: "char \<Rightarrow> bool" where
  "js_whitespace c = (of_char c \<in> {9, 10, 11, 12, 13, 32, 160 :: nat})"

definition trim :: "string \<Rightarrow> string" where
  "trim s = rev (dropWhile js_whitespace (rev (dropWhile js_whitespace s)))"

text \<open>\<^verbatim>\<open>s.split(sep)\<close> for a separator of one character: never the empty array.\<close>

fun split :: "char \<Rightarrow> string \<Rightarrow> string list" where
  "split sep [] = [[]]"
| "split sep (c # cs) =
     (if c = sep then [] # split sep cs
      else (case split sep cs of [] \<Rightarrow> [[c]] | p # ps \<Rightarrow> (c # p) # ps))"

text \<open>\<^verbatim>\<open>parts.join(sep)\<close>.\<close>

fun join :: "string \<Rightarrow> string list \<Rightarrow> string" where
  "join sep [] = []"
| "join sep [x] = x"
| "join sep (x # y # ys) = x @ sep @ join sep (y # ys)"

text \<open>\<^verbatim>\<open>Map.prototype.set\<close>: a new key goes to the end, a known key keeps its place and
  takes the new value. Also the assignment \<^verbatim>\<open>obj[key] = value\<close> on an object.\<close>

fun map_set :: "'k \<Rightarrow> 'v \<Rightarrow> ('k \<times> 'v) list \<Rightarrow> ('k \<times> 'v) list" where
  "map_set k v [] = [(k, v)]"
| "map_set k v (e # m) = (if fst e = k then (k, v) # m else e # map_set k v m)"

text \<open>Decimal rendering of an integer, as \<^verbatim>\<open>Number.prototype.toString\<close> gives it for
  the integral identifiers the program handles.\<close>

definition digit_char :: "nat \<Rightarrow> char" where
  "digit_char n = ''0123456789'' ! n"

function string_of_nat :: "nat \<Rightarrow> string" where
  "string_of_nat n =
     (if n < 10 then [digit_char n] else string_of_nat (n div 10) @ [digit_char (n mod 10)])"
  by pat_completeness auto
termination
  by (relation "measure (\<lambda>n. n)") auto

definition string_of_int :: "int \<Rightarrow> string" where
  "string_of_int i = (if i < 0 then CHR ''-'' # string_of_nat (nat (- i)) else string_of_nat (nat i))"

text \<open>\<^verbatim>\<open>encodeURIComponent\<close> on the UTF-8 bytes of a well-formed string.\<close>

definition uri_unreserved :: "char \<Rightarrow> bool" where
  "uri_unreserved c =
     (let n = (of_char c :: nat) in
      (65 \<le> n \<and> n \<le> 90) \<or> (97 \<le> n \<and> n \<le> 122) \<or> (48 \<le> n \<and> n \<le> 57) \<or>
      n \<in> {45, 95, 46, 33, 126, 42, 39, 40, 41})"

definition hex_digit :: "nat \<Rightarrow> char" where
  "hex_digit n = ''0123456789ABCDEF'' ! n"

definition encodeURIComponent :: "string \<Rightarrow> string" where
  "encodeURIComponent s =
     concat (map (\<lambda>c. if uri_unreserved c then [c]
                      else [CHR ''%'', hex_digit (of_char c div 16), hex_digit (of_char c mod 16)]) s)"

text \<open>The values the program puts into query parameters and templates.\<close>

datatype jsval = Num int | Str string | Undefined

fun js_to_string :: "jsval \<Rightarrow> string" where
  "js_to_string (Num n) = string_of_int n"
| "js_to_string (Str s) = s"
| "js_to_string Undefined = ''undefined''"

text \<open>\<^verbatim>\<open>a || b\<close> on optional strings: absent and empty are both falsy.\<close>

fun truthy :: "string option \<Rightarrow> bool" where
  "truthy None = False"
| "truthy (Some s) = (s \<noteq> [])"

definition js_or :: "string option \<Rightarrow> string option \<Rightarrow> string option" where
  "js_or a b = (if truthy a then a else b)"

section \<open>The HTTP client\<close>

datatype http_method = GET | POST

record request =
  meth :: http_method
  url :: string
  params :: "(string \<times> jsval) list"
  headers :: "(string \<times> string) list"
  payload :: "string option"
  maxRedirects :: "nat option"

text \<open>A response body: text, or any other value, of which the program reads only the
  \<^verbatim>\<open>message\<close> property (absent on null, numbers and objects without one). A value
  that is not text has no \<^verbatim>\<open>match\<close> method.\<close>

datatype body = Text string | Object "string option"

record response =
  status :: int
  setCookie :: "string list option"
  rdata :: body

text \<open>What the transport gives back for one request: a final response, or a failure
  with no response at all.\<close>

datatype outcome = Response int "string list option" body | NetworkError string

text \<open>A thrown value: its \<^verbatim>\<open>message\<close> and, for a rejected status, its
  \<^verbatim>\<open>response\<close>.\<close>

datatype js_error = Error (emessage: string) (eresponse: "response option")

text \<open>The remote side: any function from the exchanges so far and the request to an
  outcome.\<close>

type_synonym exchange = "request \<times> outcome"
type_synonym server = "exchange list \<Rightarrow> request \<Rightarrow> outcome"

record client =
  sessionCookies :: "string list"
  exchanges :: "exchange list"

type_synonym 'a async = "client \<Rightarrow> (js_error + 'a) \<times> client"

definition resolve :: "'a \<Rightarrow> 'a async" where
  "resolve x = (\<lambda>s. (Inr x, s))"

definition reject :: "js_error \<Rightarrow> 'a async" where
  "reject e = (\<lambda>s. (Inl e, s))"

text \<open>\<^verbatim>\<open>const x = await m; f x\<close>\<close>

definition await :: "'a async \<Rightarrow> ('a \<Rightarrow> 'b async) \<Rightarrow> 'b async" where
  "await m f = (\<lambda>s. case m s of (Inl e, s') \<Rightarrow> (Inl e, s') | (Inr x, s') \<Rightarrow> f x s')"

text \<open>\<^verbatim>\<open>try { m } catch (error) { h error }\<close>\<close>

definition try_catch :: "'a async \<Rightarrow> (js_error \<Rightarrow> 'a async) \<Rightarrow> 'a async" where
  "try_catch m h = (\<lambda>s. case m s of (Inl e, s') \<Rightarrow> h e s' | (Inr x, s') \<Rightarrow> (Inr x, s'))"

subsection \<open>The cookie interceptors\<close>

text \<open>One \<^verbatim>\<open>Set-Cookie\<close> line: the part before the first semicolon, trimmed, split at
  its equals signs into a name and the rest.\<close>

definition parseCookie :: "string \<Rightarrow> (string \<times> string) option" where
  "parseCookie cookieHeader =
     (case split CHR '';'' cookieHeader of
        [] \<Rightarrow> None
      | first # _ \<Rightarrow>
          (let cookiePart = trim first in
           if cookiePart = [] then None
           else (case split CHR ''='' cookiePart of
                   [] \<Rightarrow> None
                 | name # valueParts \<Rightarrow>
                     if name \<noteq> [] \<and> length valueParts > 0
                     then Some (trim name, join ''='' valueParts)
                     else None)))"

definition cookieMap :: "string list \<Rightarrow> (string \<times> string) list" where
  "cookieMap setCookieHeaders =
     foldl (\<lambda>m cookieHeader. case parseCookie cookieHeader of
                                 None \<Rightarrow> m
                               | Some (name, v) \<Rightarrow> map_set name v m)
           [] setCookieHeaders"

definition cookieEntry :: "string \<times> string \<Rightarrow> string" where
  "cookieEntry e = fst e @ ''='' @ snd e"

text \<open>The response interceptor, on the store.\<close>

definition captureCookies :: "string list option \<Rightarrow> string list \<Rightarrow> string list" where
  "captureCookies setCookieHeaders store =
     (case setCookieHeaders of
        None \<Rightarrow> store
      | Some hs \<Rightarrow> map cookieEntry (cookieMap hs))"

text \<open>The request interceptor.\<close>

definition addCookies :: "string list \<Rightarrow> request \<Rightarrow> request" where
  "addCookies store config =
     (if length store > 0
      then config\<lparr>headers := map_set ''Cookie'' (join ''; '' store) (headers config)\<rparr>
      else config)"

definition instanceHeaders :: "(string \<times> string) list" where
  "instanceHeaders =
     [(''User-Agent'', ''Mozilla/5.0 (Windows NT 10.0; Win64; x64) AppleWebKit/537.36''),
      (''Accept'', ''text/html,application/xhtml+xml,application/xml;q=0.9,*/*;q=0.8''),
      (''Accept-Language'', ''en-US,en;q=0.9,he;q=0.8''),
      (''Accept-Encoding'', ''gzip, deflate, br''),
      (''Connection'', ''keep-alive''),
      (''Upgrade-Insecure-Requests'', ''1'')]"

definition mergeHeaders :: "(string \<times> string) list \<Rightarrow> (string \<times> string) list \<Rightarrow> (string \<times> string) list" where
  "mergeHeaders base extra = foldl (\<lambda>m e. map_set (fst e) (snd e) m) base extra"

definition defaultValidateStatus :: "int \<Rightarrow> bool" where
  "defaultValidateStatus s = (200 \<le> s \<and> s < 300)"

definition statusBelow400 :: "int \<Rightarrow> bool" where
  "statusBelow400 s = (200 \<le> s \<and> s < 400)"

text \<open>The message of the error the client raises for a status it does not accept.\<close>

definition statusMessage :: "int \<Rightarrow> string" where
  "statusMessage code = ''Request failed with status code '' @ string_of_int code"

text \<open>
  One call of the client: the instance headers are merged in, the request interceptor adds
  the cookies, the exchange is recorded, and the outcome is settled by
  \<^verbatim>\<open>validateStatus\<close>. A status it refuses is raised as an error with the message
  \<^verbatim>\<open>Request failed with status code N\<close> and the response attached. The response
  interceptor has a fulfilment handler only, so it runs on accepted responses and not on
  rejected ones.
\<close>

definition prepare :: "client \<Rightarrow> request \<Rightarrow> request" where
  "prepare s config =
     addCookies (sessionCookies s) (config\<lparr>headers := mergeHeaders instanceHeaders (headers config)\<rparr>)"

definition send :: "server \<Rightarrow> (int \<Rightarrow> bool) \<Rightarrow> request \<Rightarrow> response async" where
  "send srv validateStatus config =
     (\<lambda>s. let rq = prepare s config;
               out = srv (exchanges s) rq;
               s1 = s\<lparr>exchanges := exchanges s @ [(rq, out)]\<rparr>
           in (case out of
                 NetworkError m \<Rightarrow> (Inl (Error m None), s1)
               | Response code cookies d \<Rightarrow>
                   (let r = \<lparr>status = code, setCookie = cookies, rdata = d\<rparr> in
                    if validateStatus code
                    then (Inr r, s1\<lparr>sessionCookies := captureCookies cookies (sessionCookies s1)\<rparr>)
                    else (Inl (Error (statusMessage code) (Some r)), s1))))"

section \<open>The booking client\<close>

record BookingConfig =
  mobile :: string
  serviceTypeId :: "int option"
  schedulerId :: "int option"
  date :: "string option"
  time :: "string option"
  branchId :: "int option"

record BookingResult =
  success :: bool
  message :: "string option"
  appointmentId :: "string option"
  date :: "string option"
  time :: "string option"

definition baseUrl :: string where
  "baseUrl = ''https://mentor.tormahir.co.il''"

definition ajaxHeaders :: "(string \<times> string) list" where
  "ajaxHeaders = [(''Content-Type'', ''application/x-www-form-urlencoded''),
                  (''X-Requested-With'', ''XMLHttpRequest'')]"

text \<open>\<^verbatim>\<open>error.response?.status\<close>\<close>

definition errorStatus :: "js_error \<Rightarrow> int option" where
  "errorStatus error = map_option status (eresponse error)"

subsection \<open>validateMobile\<close>

definition validateMobileRequest :: "string \<Rightarrow> request" where
  "validateMobileRequest m =
     \<lparr>meth = POST, url = ''/Validate/Mobile'', params = [(''Mobile'', Str m)],
      headers = ajaxHeaders, payload = None, maxRedirects = None\<rparr>"

definition validateMobile :: "server \<Rightarrow> string \<Rightarrow> bool async" where
  "validateMobile srv m =
     try_catch
       (await (send srv defaultValidateStatus (validateMobileRequest m))
          (\<lambda>response. resolve (status response = 200)))
       (\<lambda>error. resolve False)"

subsection \<open>login\<close>

text \<open>
  The pattern \<^verbatim>\<open>/__RequestVerificationToken[^>]*value=["']([^"']+)["']/\<close>, matched as a
  backtracking matcher does: the leftmost start wins, the starred class is tried longest
  first, and the group is the longest run of characters that are no quotes.
\<close>

definition tokenField :: string where
  "tokenField = ''__RequestVerificationToken''"

definition is_quote :: "char \<Rightarrow> bool" where
  "is_quote c = (c = CHR 0x22 \<or> c = CHR 0x27)"

text \<open>\<^verbatim>\<open>value=["']([^"']+)["']\<close> at the head of the input.\<close>

definition match_value :: "string \<Rightarrow> string option" where
  "match_value s =
     (if prefix ''value='' s
      then (case drop 6 s of
              [] \<Rightarrow> None
            | q # r \<Rightarrow>
                if is_quote q \<and> takeWhile (\<lambda>c. \<not> is_quote c) r \<noteq> [] \<and>
                   dropWhile (\<lambda>c. \<not> is_quote c) r \<noteq> []
                then Some (takeWhile (\<lambda>c. \<not> is_quote c) r)
                else None)
      else None)"

text \<open>\<^verbatim>\<open>[^>]*\<close> and then the rest: one more character first, this position after.\<close>

fun match_attrs :: "string \<Rightarrow> string option" where
  "match_attrs [] = match_value []"
| "match_attrs (c # cs) =
     (if c \<noteq> CHR ''>''
      then (case match_attrs cs of Some t \<Rightarrow> Some t | None \<Rightarrow> match_value (c # cs))
      else match_value (c # cs))"

definition match_here :: "string \<Rightarrow> string option" where
  "match_here s = (if prefix tokenField s then match_attrs (drop (length tokenField) s) else None)"

fun tokenMatch :: "string \<Rightarrow> string option" where
  "tokenMatch [] = match_here []"
| "tokenMatch (c # cs) =
     (case match_here (c # cs) of Some t \<Rightarrow> Some t | None \<Rightarrow> tokenMatch cs)"

text \<open>\<^verbatim>\<open>loginPage.data.match(...)\<close>: a body that is no string has no such method.\<close>

fun extractToken :: "body \<Rightarrow> js_error + string option" where
  "extractToken (Text s) = Inr (tokenMatch s)"
| "extractToken (Object m) = Inl (Error ''loginPage.data.match is not a function'' None)"

definition loginPageRequest :: request where
  "loginPageRequest =
     \<lparr>meth = GET, url = ''/Account/LoginClients'',
      params = [(''CustomerID'', Num 0), (''ReturnUrl'', Str ''/Clients/MakeAppoitment'')],
      headers = [], payload = None, maxRedirects = None\<rparr>"

definition loginSubmitRequest :: "string \<Rightarrow> string \<Rightarrow> request" where
  "loginSubmitRequest m verificationToken =
     \<lparr>meth = POST, url = ''/Account/LoginMobileClient'', params = [],
      headers = [(''Content-Type'', ''application/x-www-form-urlencoded''),
                 (''Referer'', baseUrl @ ''/Account/LoginClients'')],
      payload = Some (''Mobile='' @ encodeURIComponent m @
                      ''&__RequestVerificationToken='' @ encodeURIComponent verificationToken),
      maxRedirects = Some 0\<rparr>"

definition login :: "server \<Rightarrow> string \<Rightarrow> bool async" where
  "login srv m =
     try_catch
       (await (validateMobile srv m) (\<lambda>isValid.
          if \<not> isValid then resolve False
          else await (send srv defaultValidateStatus loginPageRequest) (\<lambda>loginPage.
            case extractToken (rdata loginPage) of
              Inl e \<Rightarrow> reject e
            | Inr None \<Rightarrow> resolve False
            | Inr (Some verificationToken) \<Rightarrow>
                await (send srv statusBelow400 (loginSubmitRequest m verificationToken))
                  (\<lambda>response. resolve (status response = 200 \<or> status response = 302)))))
       (\<lambda>error. if errorStatus error = Some 302 \<or> errorStatus error = Some 200
                then resolve True else resolve False)"

subsection \<open>getAvailableTimes and getNextWeekTimes\<close>

definition typeSelectRequest :: request where
  "typeSelectRequest =
     \<lparr>meth = GET, url = ''/Clients/TypeSelect/0'', params = [], headers = [],
      payload = None, maxRedirects = Some 5\<rparr>"

definition schedulerSelectRequest :: "jsval \<Rightarrow> int \<Rightarrow> request" where
  "schedulerSelectRequest idsParam branch =
     \<lparr>meth = GET, url = ''/Clients/SchedulerSelect'',
      params = [(''ids'', idsParam), (''id'', Num 0), (''Customers'', Str []),
                (''BranchID'', Num branch)],
      headers = [], payload = None, maxRedirects = Some 5\<rparr>"

definition timeSelectRequest :: "jsval \<Rightarrow> int \<Rightarrow> int \<Rightarrow> request" where
  "timeSelectRequest idsParam scheduler branch =
     \<lparr>meth = GET, url = ''/Clients/TimeSelect'',
      params = [(''ids'', idsParam), (''id'', Num 0), (''Customers'', Str []),
                (''SchedulerID'', Num scheduler), (''BranchID'', Num branch)],
      headers = [], payload = None, maxRedirects = Some 5\<rparr>"

definition timeFetchRequest :: "jsval \<Rightarrow> int \<Rightarrow> int \<Rightarrow> request" where
  "timeFetchRequest idsParam scheduler branch =
     \<lparr>meth = POST, url = ''/Clients/TimeSelectScheduler'',
      params = [(''ids'', idsParam), (''id'', Num 0), (''Customers'', Str []),
                (''SchedulerID'', Num scheduler), (''BranchID'', Num branch)],
      headers = ajaxHeaders @
        [(''Referer'', baseUrl @ ''/Clients/TimeSelect?ids='' @ js_to_string idsParam @
            ''&id=0&Customers=&SchedulerID='' @ string_of_int scheduler @
            ''&BranchID='' @ string_of_int branch)],
      payload = None, maxRedirects = Some 0\<rparr>"

text \<open>\<^verbatim>\<open>appointmentTypeIds[0]\<close>: undefined on the empty array.\<close>

fun firstId :: "int list \<Rightarrow> jsval" where
  "firstId [] = Undefined"
| "firstId (x # xs) = Num x"

text \<open>\<^verbatim>\<open>appointmentTypeIds.join(',')\<close>\<close>

definition joinIds :: "int list \<Rightarrow> string" where
  "joinIds appointmentTypeIds = join '','' (map string_of_int appointmentTypeIds)"

text \<open>The result is the payload of the last response, or null.\<close>

definition getAvailableTimes :: "server \<Rightarrow> int list \<Rightarrow> int \<Rightarrow> int \<Rightarrow> body option async" where
  "getAvailableTimes srv appointmentTypeIds scheduler branch =
     try_catch
       (let idsParam = firstId appointmentTypeIds in
        await (send srv statusBelow400 typeSelectRequest) (\<lambda>_.
        await (send srv statusBelow400 (schedulerSelectRequest idsParam branch)) (\<lambda>_.
        await (send srv statusBelow400 (timeSelectRequest idsParam scheduler branch)) (\<lambda>_.
        await (send srv statusBelow400 (timeFetchRequest idsParam scheduler branch))
          (\<lambda>response. resolve (Some (rdata response)))))))
       (\<lambda>error. case eresponse error of
                  None \<Rightarrow> resolve None
                | Some r \<Rightarrow> if status r = 302 then resolve (Some (rdata r)) else resolve None)"

definition nextWeekRequest :: "string \<Rightarrow> int \<Rightarrow> int \<Rightarrow> request" where
  "nextWeekRequest idsParam scheduler branch =
     \<lparr>meth = POST, url = ''/Clients/TimeSelectScheduler2'',
      params = [(''ids'', Str idsParam), (''id'', Num 0), (''Customers'', Str []),
                (''SchedulerID'', Num scheduler), (''BranchID'', Num branch)],
      headers = ajaxHeaders, payload = None, maxRedirects = None\<rparr>"

definition getNextWeekTimes :: "server \<Rightarrow> int list \<Rightarrow> int \<Rightarrow> int \<Rightarrow> body option async" where
  "getNextWeekTimes srv appointmentTypeIds scheduler branch =
     try_catch
       (let idsParam = joinIds appointmentTypeIds in
        await (send srv defaultValidateStatus (nextWeekRequest idsParam scheduler branch))
          (\<lambda>response. resolve (Some (rdata response))))
       (\<lambda>error. resolve None)"

subsection \<open>bookAppointment\<close>

definition bookingPageRequest :: "string \<Rightarrow> int \<Rightarrow> request" where
  "bookingPageRequest idsParam scheduler =
     \<lparr>meth = GET, url = ''/Clients/TimeSelect'',
      params = [(''ids'', Str idsParam), (''id'', Num 0), (''Customers'', Str []),
                (''SchedulerID'', Num scheduler), (''BranchID'', Num 0)],
      headers = [], payload = None, maxRedirects = None\<rparr>"

definition askAppointmentRequest :: "int \<Rightarrow> request" where
  "askAppointmentRequest len =
     \<lparr>meth = POST, url = ''/Clients/AskAppointment'', params = [(''Length'', Num len)],
      headers = ajaxHeaders, payload = None, maxRedirects = None\<rparr>"

text \<open>\<^verbatim>\<open>error.response?.data?.message\<close>\<close>

definition embeddedMessage :: "js_error \<Rightarrow> string option" where
  "embeddedMessage error =
     (case eresponse error of
        None \<Rightarrow> None
      | Some r \<Rightarrow> (case rdata r of Text s \<Rightarrow> None | Object m \<Rightarrow> m))"

definition failure :: "string option \<Rightarrow> BookingResult" where
  "failure m = \<lparr>success = False, message = m, appointmentId = None, date = None, time = None\<rparr>"

definition booked :: "string \<Rightarrow> string \<Rightarrow> BookingResult" where
  "booked d t = \<lparr>success = True, message = Some ''Appointment booked successfully'',
                 appointmentId = None, date = Some d, time = Some t\<rparr>"

definition bookAppointment ::
  "server \<Rightarrow> int list \<Rightarrow> int \<Rightarrow> string \<Rightarrow> string \<Rightarrow> int \<Rightarrow> BookingResult async" where
  "bookAppointment srv appointmentTypeIds scheduler d t len =
     try_catch
       (let idsParam = joinIds appointmentTypeIds in
        await (send srv defaultValidateStatus (bookingPageRequest idsParam scheduler)) (\<lambda>_.
        await (send srv defaultValidateStatus (askAppointmentRequest len)) (\<lambda>response.
          if status response = 200
          then resolve (booked d t)
          else resolve (failure (Some ''Booking failed - unexpected response'')))))
       (\<lambda>error. resolve (failure
          (js_or (js_or (embeddedMessage error) (Some (emessage error))) (Some ''Unknown error''))))"

subsection \<open>completeBooking\<close>

text \<open>\<^verbatim>\<open>id || fallback\<close> on an optional number: absent and zero are both falsy.\<close>

fun orDefault :: "int option \<Rightarrow> int \<Rightarrow> int" where
  "orDefault None d = d"
| "orDefault (Some n) d = (if n = 0 then d else n)"

definition loggedInOnly :: BookingResult where
  "loggedInOnly =
     \<lparr>success = True,
      message = Some ''Logged in successfully. Use getAvailableTimes() to see available slots'',
      appointmentId = None, date = None, time = None\<rparr>"

text \<open>\<^verbatim>\<open>completeBooking\<close>'s catch block.\<close>

definition completeBooking_catch :: "js_error \<Rightarrow> BookingResult" where
  "completeBooking_catch error = failure (js_or (Some (emessage error)) (Some ''Booking failed''))"

text \<open>
  The try block of \<^verbatim>\<open>completeBooking\<close> and the whole method, over the three
  methods it calls on \<^verbatim>\<open>this\<close>. The condition \<^verbatim>\<open>config.date && config.time\<close>
  holds when both are present and not empty. The branch identifier of the configuration
  is not read; the time lookup runs with its default branch 0 and the booking with its
  default length 7.
\<close>

definition completeBooking_try ::
  "(string \<Rightarrow> bool async) \<Rightarrow> (int list \<Rightarrow> int \<Rightarrow> int \<Rightarrow> body option async) \<Rightarrow>
   (int list \<Rightarrow> int \<Rightarrow> string \<Rightarrow> string \<Rightarrow> int \<Rightarrow> BookingResult async) \<Rightarrow>
   BookingConfig \<Rightarrow> BookingResult async" where
  "completeBooking_try login' getAvailableTimes' bookAppointment' config =
     await (login' (mobile config)) (\<lambda>loggedIn.
       if \<not> loggedIn then resolve (failure (Some ''Login failed''))
       else
         (let scheduler = orDefault (schedulerId config) 6132;
              appointmentTypeIds = [orDefault (serviceTypeId config) 37331]
          in await (getAvailableTimes' appointmentTypeIds scheduler 0) (\<lambda>times.
               case (BookingConfig.date config, BookingConfig.time config) of
                 (Some d, Some t) \<Rightarrow>
                   if d \<noteq> [] \<and> t \<noteq> []
                   then bookAppointment' appointmentTypeIds scheduler d t 7
                   else resolve loggedInOnly
               | _ \<Rightarrow> resolve loggedInOnly)))"

definition completeBooking_flow ::
  "(string \<Rightarrow> bool async) \<Rightarrow> (int list \<Rightarrow> int \<Rightarrow> int \<Rightarrow> body option async) \<Rightarrow>
   (int list \<Rightarrow> int \<Rightarrow> string \<Rightarrow> string \<Rightarrow> int \<Rightarrow> BookingResult async) \<Rightarrow>
   BookingConfig \<Rightarrow> BookingResult async" where
  "completeBooking_flow login' getAvailableTimes' bookAppointment' config =
     try_catch (completeBooking_try login' getAvailableTimes' bookAppointment' config)
       (\<lambda>error. resolve (completeBooking_catch error))"

definition completeBooking :: "server \<Rightarrow> BookingConfig \<Rightarrow> BookingResult async" where
  "completeBooking srv = completeBooking_flow (login srv) (getAvailableTimes srv) (bookAppointment srv)"

text \<open>The exchanges a run has added, oldest first.\<close>

definition issued :: "client \<Rightarrow> client \<Rightarrow> exchange list" where
  "issued s s' = drop (length (exchanges s)) (exchanges s')"

text \<open>The client as the constructor leaves it.\<close>

definition newClient :: client where
  "newClient = \<lparr>sessionCookies = [], exchanges = []\<rparr>"

section \<open>Observations on a run\<close>

text \<open>What identifies a call on the wire: method and path, and with them the query.\<close>

definition endpoint :: "exchange \<Rightarrow> http_method \<times> string" where
  "endpoint x = (meth (fst x), url (fst x))"

definition line :: "request \<Rightarrow> http_method \<times> string \<times> (string \<times> jsval) list" where
  "line rq = (meth rq, url rq, params rq)"

text \<open>The \<^verbatim>\<open>ids\<close> query parameter of a request, when it carries one.\<close>

definition idsOf :: "exchange \<Rightarrow> jsval option" where
  "idsOf x = map_of (params (fst x)) ''ids''"

text \<open>The outcomes the server gave to the calls of one path, oldest first.\<close>

definition answers :: "string \<Rightarrow> exchange list \<Rightarrow> outcome list" where
  "answers path xs = map snd (filter (\<lambda>x. url (fst x) = path) xs)"

definition wizardSequence :: "(http_method \<times> string) list" where
  "wizardSequence =
     [(GET, ''/Clients/TypeSelect/0''), (GET, ''/Clients/SchedulerSelect''),
      (GET, ''/Clients/TimeSelect''), (POST, ''/Clients/TimeSelectScheduler'')]"

definition wizardRequests :: "int list \<Rightarrow> int \<Rightarrow> int \<Rightarrow> request list" where
  "wizardRequests ids sch br =
     [typeSelectRequest, schedulerSelectRequest (firstId ids) br,
      timeSelectRequest (firstId ids) sch br, timeFetchRequest (firstId ids) sch br]"

text \<open>The cookies a list of \<^verbatim>\<open>Set-Cookie\<close> lines names, in the order of the lines, and
  the last value a name is given among them.\<close>

definition parsedCookies :: "string list \<Rightarrow> (string \<times> string) list" where
  "parsedCookies hs = List.map_filter parseCookie hs"

definition lastValue :: "string \<Rightarrow> (string \<times> string) list \<Rightarrow> string option" where
  "lastValue name ps = map_of (rev ps) name"

text \<open>Name and value of an entry \<^verbatim>\<open>name=value\<close> of the store.\<close>

definition cookieName :: "string \<Rightarrow> string" where
  "cookieName entry = takeWhile (\<lambda>c. c \<noteq> CHR ''='') entry"

definition cookieValue :: "string \<Rightarrow> string" where
  "cookieValue entry = drop (Suc (length (cookieName entry))) entry"

text \<open>What \<^verbatim>\<open>login\<close> makes of the outcome of the login submission, and
  \<^verbatim>\<open>bookAppointment\<close> of the outcome of the booking call.\<close>

definition loginVerdict :: "outcome \<Rightarrow> bool" where
  "loginVerdict out =
     (case out of NetworkError m \<Rightarrow> False | Response code hs b \<Rightarrow> code = 200 \<or> code = 302)"

definition bookingVerdict :: "string \<Rightarrow> string \<Rightarrow> outcome \<Rightarrow> BookingResult" where
  "bookingVerdict d t out =
     (case out of
        NetworkError m \<Rightarrow> failure (Some (if m = [] then ''Unknown error'' else m))
      | Response code hs b \<Rightarrow>
          if code = 200 then booked d t
          else if 200 \<le> code \<and> code < 300
          then failure (Some ''Booking failed - unexpected response'')
          else failure (Some (case b of
                                Text s \<Rightarrow> statusMessage code
                              | Object None \<Rightarrow> statusMessage code
                              | Object (Some m) \<Rightarrow> if m = [] then statusMessage code else m)))"

section \<open>Servers to run the client against\<close>

text \<open>A server that answers by path, with status 200 and an empty body where the table
  has no entry.\<close>

definition routes :: "(string \<times> outcome) list \<Rightarrow> server" where
  "routes table h rq =
     (case map_of table (url rq) of Some out \<Rightarrow> out | None \<Rightarrow> Response 200 None (Text []))"

definition loginPageHtml :: string where
  "loginPageHtml =
     ''<input name=\"__RequestVerificationToken\" type=\"hidden\" value=\"tok123\" />''"

definition barePageHtml :: string where
  "barePageHtml = ''<form></form>''"

text \<open>The vendor as the program expects it: a login page with the hidden field, and a
  redirect with the session cookie on the login submission.\<close>

definition vendor :: "(string \<times> outcome) list" where
  "vendor =
     [(''/Account/LoginClients'',
         Response 200 (Some [''sid=1; path=/'', ''lang=he'']) (Text loginPageHtml)),
      (''/Account/LoginMobileClient'',
         Response 302 (Some [''auth=abc; path=/; HttpOnly'']) (Text []))]"

definition demoConfig :: BookingConfig where
  "demoConfig =
     \<lparr>mobile = ''0544458876'', serviceTypeId = Some 37331, schedulerId = Some 6132,
      date = Some ''2025-11-16'', time = Some ''10:00'', branchId = Some 0\<rparr>"

text \<open>The same customer with no time given.\<close>

definition loginOnlyConfig :: BookingConfig where
  "loginOnlyConfig = demoConfig\<lparr>BookingConfig.time := None\<rparr>"

section \<open>Properties of the cookie store\<close>

text \<open>The map the interceptor builds has one entry for each name, with the value of the
  last line that gives the name; a name never contains an equals sign, so an entry of the
  store can be read back.\<close>

lemma map_of_map_set: "map_of (map_set k v m) = (map_of m)(k \<mapsto> v)"
  by (induction m) (auto simp: fun_eq_iff)

lemma keys_map_set: "fst ` set (map_set k v m) = insert k (fst ` set m)"
  by (induction m) auto

lemma distinct_map_set: "distinct (map fst m) \<Longrightarrow> distinct (map fst (map_set k v m))"
  by (induction m) (auto simp: keys_map_set)

lemma cookieMap_fold: 
  "foldl (\<lambda>m cookieHeader. case parseCookie cookieHeader of None \<Rightarrow> m | Some (name, v) \<Rightarrow> map_set name v m) m hs
   = foldl (\<lambda>m e. map_set (fst e) (snd e) m) m (parsedCookies hs)"
  by (induction hs arbitrary: m) (auto simp: parsedCookies_def List.map_filter_simps split: option.splits)

lemma fold_map_of: "map_of (foldl (\<lambda>m e. map_set (fst e) (snd e) m) m ps) = map_of m ++ map_of (rev ps)"
  by (induction ps arbitrary: m) (auto simp: map_of_map_set fun_eq_iff map_add_def split: option.splits)

lemma fold_keys: "fst ` set (foldl (\<lambda>m e. map_set (fst e) (snd e) m) m ps) = fst ` set m \<union> fst ` set ps"
  by (induction ps arbitrary: m) (auto simp: keys_map_set)

lemma fold_distinct: "distinct (map fst m) \<Longrightarrow> distinct (map fst (foldl (\<lambda>m e. map_set (fst e) (snd e) m) m ps))"
  by (induction ps arbitrary: m) (auto simp: distinct_map_set)

lemma cookieMap_map_of: "map_of (cookieMap hs) = map_of (rev (parsedCookies hs))"
  by (simp add: cookieMap_def cookieMap_fold fold_map_of)

lemma cookieMap_keys: "fst ` set (cookieMap hs) = fst ` set (parsedCookies hs)"
  by (simp add: cookieMap_def cookieMap_fold fold_keys)

lemma cookieMap_distinct: "distinct (map fst (cookieMap hs))"
  by (simp add: cookieMap_def cookieMap_fold fold_distinct)

lemma split_head_no_sep: "split sep s = p # ps \<Longrightarrow> sep \<notin> set p"
  by (induction s arbitrary: p ps) (auto split: if_splits list.splits)

lemma set_trim: "set (trim s) \<subseteq> set s"
proof
  fix x assume "x \<in> set (trim s)"
  then have "x \<in> set (dropWhile js_whitespace (rev (dropWhile js_whitespace s)))"
    by (simp add: trim_def)
  then have "x \<in> set (rev (dropWhile js_whitespace s))" by (rule set_dropWhileD)
  then have "x \<in> set (dropWhile js_whitespace s)" by simp
  then show "x \<in> set s" by (rule set_dropWhileD)
qed

lemma parseCookie_name: "parseCookie h = Some (n, v) \<Longrightarrow> CHR ''='' \<notin> set n"
  using set_trim split_head_no_sep
  by (fastforce simp: parseCookie_def Let_def split: list.splits if_splits)

lemma parsedCookies_name: "(n, v) \<in> set (parsedCookies hs) \<Longrightarrow> CHR ''='' \<notin> set n"
  by (auto simp: parsedCookies_def List.map_filter_def dest: parseCookie_name)

lemma cookieMap_name: "(n, v) \<in> set (cookieMap hs) \<Longrightarrow> CHR ''='' \<notin> set n"
proof -
  assume a: "(n, v) \<in> set (cookieMap hs)"
  then have "n \<in> fst ` set (cookieMap hs)" by force
  then have "n \<in> fst ` set (parsedCookies hs)" by (simp add: cookieMap_keys)
  then show ?thesis by (auto dest: parsedCookies_name)
qed

lemma cookieName_entry: "CHR ''='' \<notin> set n \<Longrightarrow> cookieName (cookieEntry (n, v)) = n"
  by (simp add: cookieName_def cookieEntry_def takeWhile_append)

lemma cookieValue_entry: "CHR ''='' \<notin> set n \<Longrightarrow> cookieValue (cookieEntry (n, v)) = v"
  by (simp add: cookieValue_def cookieName_entry) (simp add: cookieEntry_def)

lemma names_store: "map cookieName (map cookieEntry (cookieMap hs)) = map fst (cookieMap hs)"
  by (auto simp: cookieName_entry dest: cookieMap_name)

section \<open>Runs of the client\<close>

text \<open>Every call adds one exchange to the record of the client. Each method is analysed
  by the outcomes of its calls, one case for each way its run can end.\<close>

lemma prepare_fields [simp]:
  "meth (prepare s rq) = meth rq" "url (prepare s rq) = url rq" "params (prepare s rq) = params rq"
  "payload (prepare s rq) = payload rq" "maxRedirects (prepare s rq) = maxRedirects rq"
  by (simp_all add: prepare_def addCookies_def)

lemma line_prepare [simp]: "line (prepare s rq) = line rq"
  by (simp add: line_def)

lemma send_exchanges:
  "send srv v rq s = (res, s') \<Longrightarrow>
   exchanges s' = exchanges s @ [(prepare s rq, srv (exchanges s) (prepare s rq))]"
  by (auto simp: send_def Let_def split: outcome.splits if_splits)

lemma send_Inr:
  "send srv v rq s = (Inr r, s') \<Longrightarrow>
   srv (exchanges s) (prepare s rq) = Response (status r) (setCookie r) (rdata r) \<and> v (status r)"
  by (auto simp: send_def Let_def split: outcome.splits if_splits)

lemma send_Inl:
  "send srv v rq s = (Inl e, s') \<Longrightarrow>
   (case srv (exchanges s) (prepare s rq) of
      NetworkError m \<Rightarrow> e = Error m None
    | Response code hs d \<Rightarrow> \<not> v code \<and>
        e = Error (statusMessage code) (Some \<lparr>status = code, setCookie = hs, rdata = d\<rparr>))"
  by (auto simp: send_def Let_def split: outcome.splits if_splits)

lemma send_stores_cookies:
  "srv (exchanges s) (prepare s rq) = Response code cookies d \<Longrightarrow> v code \<Longrightarrow>
   sessionCookies (snd (send srv v rq s)) = captureCookies cookies (sessionCookies s)"
  by (simp add: send_def Let_def)

lemma await_Inl: "m s = (Inl e, s') \<Longrightarrow> await m f s = (Inl e, s')"
  by (simp add: await_def)

lemma await_Inr: "m s = (Inr x, s') \<Longrightarrow> await m f s = f x s'"
  by (simp add: await_def)

lemma try_Inl: "m s = (Inl e, s') \<Longrightarrow> try_catch m h s = h e s'"
  by (simp add: try_catch_def)

lemma try_Inr: "m s = (Inr x, s') \<Longrightarrow> try_catch m h s = (Inr x, s')"
  by (simp add: try_catch_def)

lemma getAvailableTimes_handler:
  "\<exists>t. (case eresponse e of None \<Rightarrow> resolve None
         | Some r \<Rightarrow> if status r = 302 then resolve (Some (rdata r)) else resolve None) s = (Inr t, s)"
  by (simp add: resolve_def split: option.splits)

lemma getAvailableTimes_run:
  obtains t s' k where
    "getAvailableTimes srv ids sch br s = (Inr t, s')"
    "k \<in> {1, 2, 3, 4}"
    "map (line \<circ> fst) (issued s s') = take k (map line (wizardRequests ids sch br))"
    "exchanges s' = exchanges s @ issued s s'"
proof -
  let ?i = "firstId ids"
  let ?h = "\<lambda>error. case eresponse error of None \<Rightarrow> resolve None
                | Some r \<Rightarrow> if status r = 302 then resolve (Some (rdata r)) else resolve None"
  let ?k4 = "\<lambda>response. resolve (Some (rdata response))"
  let ?k3 = "\<lambda>_::response. await (send srv statusBelow400 (timeFetchRequest ?i sch br)) ?k4"
  let ?k2 = "\<lambda>_::response. await (send srv statusBelow400 (timeSelectRequest ?i sch br)) ?k3"
  let ?k1 = "\<lambda>_::response. await (send srv statusBelow400 (schedulerSelectRequest ?i br)) ?k2"
  have def: "getAvailableTimes srv ids sch br = try_catch (await (send srv statusBelow400 typeSelectRequest) ?k1) ?h"
    by (simp add: getAvailableTimes_def Let_def)
  obtain r1 s1 where 1: "send srv statusBelow400 typeSelectRequest s = (r1, s1)" by force
  obtain r2 s2 where 2: "send srv statusBelow400 (schedulerSelectRequest ?i br) s1 = (r2, s2)" by force
  obtain r3 s3 where 3: "send srv statusBelow400 (timeSelectRequest ?i sch br) s2 = (r3, s3)" by force
  obtain r4 s4 where 4: "send srv statusBelow400 (timeFetchRequest ?i sch br) s3 = (r4, s4)" by force
  note x1 = send_exchanges[OF 1] and x2 = send_exchanges[OF 2] and x3 = send_exchanges[OF 3]
    and x4 = send_exchanges[OF 4]
  show thesis
  proof (cases r1)
    case (Inl e)
    obtain t where h: "?h e s1 = (Inr t, s1)" using getAvailableTimes_handler by blast
    have "getAvailableTimes srv ids sch br s = (Inr t, s1)"
      unfolding def using 1 Inl h by (simp add: try_Inl await_Inl)
    then show thesis using x1
      by (intro that[of t s1 1]) (simp_all add: issued_def wizardRequests_def)
  next
    case a: (Inr y1)
    show thesis
    proof (cases r2)
      case (Inl e)
      obtain t where h: "?h e s2 = (Inr t, s2)" using getAvailableTimes_handler by blast
      have "await (send srv statusBelow400 typeSelectRequest) ?k1 s = (Inl e, s2)"
        using 1 2 a Inl by (simp add: await_Inr await_Inl)
      then have "getAvailableTimes srv ids sch br s = (Inr t, s2)"
        unfolding def using h by (simp add: try_Inl)
      then show thesis using x1 x2
        by (intro that[of t s2 2]) (simp_all add: issued_def wizardRequests_def)
    next
      case b: (Inr y2)
      show thesis
      proof (cases r3)
        case (Inl e)
        obtain t where h: "?h e s3 = (Inr t, s3)" using getAvailableTimes_handler by blast
        have "await (send srv statusBelow400 typeSelectRequest) ?k1 s = (Inl e, s3)"
          using 1 2 3 a b Inl by (simp add: await_Inr await_Inl)
        then have "getAvailableTimes srv ids sch br s = (Inr t, s3)"
          unfolding def using h by (simp add: try_Inl)
        then show thesis using x1 x2 x3
          by (intro that[of t s3 3]) (simp_all add: issued_def wizardRequests_def)
      next
        case c: (Inr y3)
        show thesis
        proof (cases r4)
          case (Inl e)
          obtain t where h: "?h e s4 = (Inr t, s4)" using getAvailableTimes_handler by blast
          have "await (send srv statusBelow400 typeSelectRequest) ?k1 s = (Inl e, s4)"
            using 1 2 3 4 a b c Inl by (simp add: await_Inr await_Inl)
          then have "getAvailableTimes srv ids sch br s = (Inr t, s4)"
            unfolding def using h by (simp add: try_Inl)
          then show thesis using x1 x2 x3 x4
            by (intro that[of t s4 4]) (simp_all add: issued_def wizardRequests_def)
        next
          case d: (Inr y4)
          have "await (send srv statusBelow400 typeSelectRequest) ?k1 s = (Inr (Some (rdata y4)), s4)"
            using 1 2 3 4 a b c d by (simp add: await_Inr resolve_def)
          then have "getAvailableTimes srv ids sch br s = (Inr (Some (rdata y4)), s4)"
            unfolding def by (simp add: try_Inr)
          then show thesis using x1 x2 x3 x4
            by (intro that[of _ s4 4]) (simp_all add: issued_def wizardRequests_def)
        qed
      qed
    qed
  qed
qed

lemma validateMobile_run:
  obtains b s1 where "validateMobile srv m s = (Inr b, s1)"
    "exchanges s1 = exchanges s @ [(prepare s (validateMobileRequest m),
                                    srv (exchanges s) (prepare s (validateMobileRequest m)))]"
proof -
  obtain r s1 where 1: "send srv defaultValidateStatus (validateMobileRequest m) s = (r, s1)" by force
  have "\<exists>b. validateMobile srv m s = (Inr b, s1)"
    using 1 by (cases r) (auto simp: validateMobile_def try_catch_def await_def resolve_def)
  then show thesis using send_exchanges[OF 1] that by blast
qed

lemma bookAppointment_handler:
  assumes "send srv defaultValidateStatus rq s = (Inl e, s')"
  shows "js_or (js_or (embeddedMessage e) (Some (emessage e))) (Some ''Unknown error'')
         = message (bookingVerdict d t (srv (exchanges s) (prepare s rq)))
       \<and> bookingVerdict d t (srv (exchanges s) (prepare s rq)) = failure (message (bookingVerdict d t (srv (exchanges s) (prepare s rq))))"
  using send_Inl[OF assms]
  by (auto simp: bookingVerdict_def js_or_def embeddedMessage_def failure_def defaultValidateStatus_def
        statusMessage_def split: outcome.splits body.splits option.splits)

lemma bookAppointment_cases:
  obtains (page_failed) x1 s1 msg where
      "bookAppointment srv ids sch d t len s = (Inr (failure msg), s1)"
      "exchanges s1 = exchanges s @ [x1]"
      "line (fst x1) = line (bookingPageRequest (joinIds ids) sch)"
  | (asked) x1 x2 s2 where
      "bookAppointment srv ids sch d t len s = (Inr (bookingVerdict d t (snd x2)), s2)"
      "exchanges s2 = exchanges s @ [x1, x2]"
      "line (fst x1) = line (bookingPageRequest (joinIds ids) sch)"
      "line (fst x2) = line (askAppointmentRequest len)"
proof -
  let ?h = "\<lambda>error. resolve (failure
          (js_or (js_or (embeddedMessage error) (Some (emessage error))) (Some ''Unknown error'')))"
  let ?k2 = "\<lambda>response. if status response = 200 then resolve (booked d t)
          else resolve (failure (Some ''Booking failed - unexpected response''))"
  let ?k1 = "\<lambda>_::response. await (send srv defaultValidateStatus (askAppointmentRequest len)) ?k2"
  have def: "bookAppointment srv ids sch d t len =
      try_catch (await (send srv defaultValidateStatus (bookingPageRequest (joinIds ids) sch)) ?k1) ?h"
    by (simp add: bookAppointment_def Let_def)
  obtain r1 s1 where 1: "send srv defaultValidateStatus (bookingPageRequest (joinIds ids) sch) s = (r1, s1)" by force
  obtain r2 s2 where 2: "send srv defaultValidateStatus (askAppointmentRequest len) s1 = (r2, s2)" by force
  note x1 = send_exchanges[OF 1] and x2 = send_exchanges[OF 2]
  show thesis
  proof (cases r1)
    case (Inl e)
    then have "bookAppointment srv ids sch d t len s = ?h e s1"
      unfolding def using 1 by (simp add: try_Inl await_Inl)
    then show thesis using x1
      by (intro page_failed[of _ s1 "(prepare s (bookingPageRequest (joinIds ids) sch),
            srv (exchanges s) (prepare s (bookingPageRequest (joinIds ids) sch)))"])
         (simp_all add: resolve_def)
  next
    case a: (Inr y1)
    let ?out = "srv (exchanges s1) (prepare s1 (askAppointmentRequest len))"
    have "bookAppointment srv ids sch d t len s = (Inr (bookingVerdict d t ?out), s2)"
    proof (cases r2)
      case (Inl e)
      then have "bookAppointment srv ids sch d t len s = ?h e s2"
        unfolding def using 1 2 a by (simp add: try_Inl await_Inl await_Inr)
      moreover have "?h e s2 = (Inr (bookingVerdict d t ?out), s2)"
        using bookAppointment_handler[OF 2[unfolded Inl], of d t] by (simp add: resolve_def)
      ultimately show ?thesis by simp
    next
      case (Inr y2)
      from send_Inr[OF 2[unfolded Inr]]
      have o: "?out = Response (status y2) (setCookie y2) (rdata y2)" and v: "defaultValidateStatus (status y2)"
        by simp_all
      have "bookAppointment srv ids sch d t len s = ?k2 y2 s2"
        unfolding def using 1 2 a Inr by (simp add: try_catch_def await_def resolve_def)
      moreover have "?k2 y2 s2 = (Inr (bookingVerdict d t ?out), s2)"
        using v unfolding o by (simp add: bookingVerdict_def resolve_def defaultValidateStatus_def)
      ultimately show ?thesis by simp
    qed
    then show thesis using x1 x2
      by (intro asked[of "(prepare s1 (askAppointmentRequest len), ?out)" s2
            "(prepare s (bookingPageRequest (joinIds ids) sch),
              srv (exchanges s) (prepare s (bookingPageRequest (joinIds ids) sch)))"]) simp_all
  qed
qed

lemma login_handler:
  "(if errorStatus e = Some 302 \<or> errorStatus e = Some 200 then resolve True else resolve False) s
   = (Inr (errorStatus e = Some 302 \<or> errorStatus e = Some 200), s)"
  by (simp add: resolve_def)

lemma login_cases:
  obtains (invalid) x1 s1 where
      "login srv m s = (Inr False, s1)"
      "exchanges s1 = exchanges s @ [x1]"
      "line (fst x1) = line (validateMobileRequest m)"
  | (page_failed) x1 x2 s2 b where
      "login srv m s = (Inr b, s2)"
      "exchanges s2 = exchanges s @ [x1, x2]"
      "line (fst x1) = line (validateMobileRequest m)"
      "line (fst x2) = line loginPageRequest"
      "\<And>code hs d. snd x2 = Response code hs d \<Longrightarrow> \<not> defaultValidateStatus code"
      "b = (\<exists>hs d. snd x2 = Response 302 hs d)"
  | (no_token) x1 x2 s2 code hs d where
      "login srv m s = (Inr False, s2)"
      "exchanges s2 = exchanges s @ [x1, x2]"
      "line (fst x1) = line (validateMobileRequest m)"
      "line (fst x2) = line loginPageRequest"
      "snd x2 = Response code hs d" "defaultValidateStatus code"
      "\<And>tok. extractToken d \<noteq> Inr (Some tok)"
  | (submitted) x1 x2 x3 s3 code hs d tok where
      "login srv m s = (Inr (loginVerdict (snd x3)), s3)"
      "exchanges s3 = exchanges s @ [x1, x2, x3]"
      "line (fst x1) = line (validateMobileRequest m)"
      "line (fst x2) = line loginPageRequest"
      "snd x2 = Response code hs d" "defaultValidateStatus code"
      "extractToken d = Inr (Some tok)"
      "line (fst x3) = line (loginSubmitRequest m tok)"
proof -
  let ?h = "\<lambda>error. if errorStatus error = Some 302 \<or> errorStatus error = Some 200
                then resolve True else resolve False"
  let ?k3 = "\<lambda>response. resolve (status response = 200 \<or> status response = 302)"
  let ?k2 = "\<lambda>loginPage.
            case extractToken (rdata loginPage) of
              Inl e \<Rightarrow> reject e
            | Inr None \<Rightarrow> resolve False
            | Inr (Some verificationToken) \<Rightarrow>
                await (send srv statusBelow400 (loginSubmitRequest m verificationToken)) ?k3"
  let ?k1 = "\<lambda>isValid. if \<not> isValid then resolve False
          else await (send srv defaultValidateStatus loginPageRequest) ?k2"
  have def: "login srv m = try_catch (await (validateMobile srv m) ?k1) ?h"
    by (simp add: login_def)
  obtain b1 s1 where 1: "validateMobile srv m s = (Inr b1, s1)"
    and x1: "exchanges s1 = exchanges s @ [(prepare s (validateMobileRequest m),
                                    srv (exchanges s) (prepare s (validateMobileRequest m)))]"
    by (rule validateMobile_run)
  let ?x1 = "(prepare s (validateMobileRequest m), srv (exchanges s) (prepare s (validateMobileRequest m)))"
  obtain r2 s2 where 2: "send srv defaultValidateStatus loginPageRequest s1 = (r2, s2)" by force
  note x2 = send_exchanges[OF 2]
  let ?x2 = "(prepare s1 loginPageRequest, srv (exchanges s1) (prepare s1 loginPageRequest))"
  show thesis
  proof (cases b1)
    case False
    then have "login srv m s = (Inr False, s1)"
      unfolding def using 1 by (simp add: try_catch_def await_def resolve_def)
    then show thesis using x1 by (intro invalid[of s1 ?x1]) simp_all
  next
    case valid: True
    show thesis
    proof (cases r2)
      case (Inl e)
      then have "await (validateMobile srv m) ?k1 s = (Inl e, s2)"
        using 1 2 valid by (simp add: await_def)
      then have "login srv m s = (Inr (errorStatus e = Some 302 \<or> errorStatus e = Some 200), s2)"
        unfolding def by (simp add: try_Inl login_handler)
      moreover have "\<not> defaultValidateStatus code" if "snd ?x2 = Response code hs d" for code hs d
        using send_Inl[OF 2[unfolded Inl]] that by simp
      moreover have "(errorStatus e = Some 302 \<or> errorStatus e = Some 200)
                       = (\<exists>hs d. snd ?x2 = Response 302 hs d)"
        using send_Inl[OF 2[unfolded Inl]]
        by (auto simp: errorStatus_def defaultValidateStatus_def split: outcome.splits)
      ultimately show thesis using x1 x2
        by (intro page_failed[of _ s2 ?x1 ?x2]) simp_all
    next
      case page: (Inr loginPage)
      from send_Inr[OF 2[unfolded page]]
      have o2: "snd ?x2 = Response (status loginPage) (setCookie loginPage) (rdata loginPage)"
        and v2: "defaultValidateStatus (status loginPage)" by simp_all
      have body: "await (validateMobile srv m) ?k1 s = ?k2 loginPage s2"
        using 1 2 valid page by (simp add: await_def)
      show thesis
      proof (cases "extractToken (rdata loginPage)")
        case (Inl e)
        then obtain msg where e: "e = Error msg None" by (cases "rdata loginPage") auto
        have "await (validateMobile srv m) ?k1 s = (Inl e, s2)"
          using body Inl by (simp add: reject_def)
        then have "login srv m s = (Inr False, s2)"
          unfolding def by (simp add: try_Inl login_handler e errorStatus_def resolve_def)
        then show thesis using x1 x2 o2 v2 Inl
          by (intro no_token[of s2 ?x1 ?x2 "status loginPage" "setCookie loginPage" "rdata loginPage"]) simp_all
      next
        case tm: (Inr found)
        show thesis
        proof (cases found)
          case None
          have "await (validateMobile srv m) ?k1 s = (Inr False, s2)"
            using body tm None by (simp add: resolve_def)
          then have "login srv m s = (Inr False, s2)"
            unfolding def by (simp add: try_Inr)
          then show thesis using x1 x2 o2 v2 tm None
            by (intro no_token[of s2 ?x1 ?x2 "status loginPage" "setCookie loginPage" "rdata loginPage"]) simp_all
        next
          case (Some tok)
          obtain r3 s3 where 3: "send srv statusBelow400 (loginSubmitRequest m tok) s2 = (r3, s3)" by force
          note x3 = send_exchanges[OF 3]
          let ?x3 = "(prepare s2 (loginSubmitRequest m tok), srv (exchanges s2) (prepare s2 (loginSubmitRequest m tok)))"
          have body3: "await (validateMobile srv m) ?k1 s = await (send srv statusBelow400 (loginSubmitRequest m tok)) ?k3 s2"
            using body tm Some by simp
          have "login srv m s = (Inr (loginVerdict (snd ?x3)), s3)"
          proof (cases r3)
            case (Inl e)
            have "errorStatus e \<noteq> Some 302 \<and> errorStatus e \<noteq> Some 200 \<and> \<not> loginVerdict (snd ?x3)"
              using send_Inl[OF 3[unfolded Inl]]
              by (auto simp: errorStatus_def loginVerdict_def statusBelow400_def split: outcome.splits)
            moreover have "login srv m s = (Inr (errorStatus e = Some 302 \<or> errorStatus e = Some 200), s3)"
              unfolding def using body3 3 Inl by (simp add: try_catch_def await_def resolve_def)
            ultimately show ?thesis by simp
          next
            case (Inr y)
            have "loginVerdict (snd ?x3) = (status y = 200 \<or> status y = 302)"
              using send_Inr[OF 3[unfolded Inr]] by (simp add: loginVerdict_def)
            moreover have "login srv m s = (Inr (status y = 200 \<or> status y = 302), s3)"
              unfolding def using body3 3 Inr by (simp add: try_catch_def await_def resolve_def)
            ultimately show ?thesis by simp
          qed
          then show thesis using x1 x2 x3 o2 v2 tm Some
            by (intro submitted[of ?x3 s3 ?x1 ?x2 "status loginPage" "setCookie loginPage" "rdata loginPage" tok]) simp_all
        qed
      qed
    qed
  qed
qed

lemma url_requests [simp]:
  "url (validateMobileRequest m) = ''/Validate/Mobile''"
  "url loginPageRequest = ''/Account/LoginClients''"
  "url (loginSubmitRequest m tok) = ''/Account/LoginMobileClient''"
  "url typeSelectRequest = ''/Clients/TypeSelect/0''"
  "url (schedulerSelectRequest i br) = ''/Clients/SchedulerSelect''"
  "url (timeSelectRequest i sch br) = ''/Clients/TimeSelect''"
  "url (timeFetchRequest i sch br) = ''/Clients/TimeSelectScheduler''"
  "url (nextWeekRequest j sch br) = ''/Clients/TimeSelectScheduler2''"
  "url (bookingPageRequest j sch) = ''/Clients/TimeSelect''"
  "url (askAppointmentRequest len) = ''/Clients/AskAppointment''"
  by (simp_all add: validateMobileRequest_def loginPageRequest_def loginSubmitRequest_def
      typeSelectRequest_def schedulerSelectRequest_def timeSelectRequest_def timeFetchRequest_def
      nextWeekRequest_def bookingPageRequest_def askAppointmentRequest_def)

lemma endpoint_of_line: "endpoint x = (fst (line (fst x)), fst (snd (line (fst x))))"
  by (simp add: endpoint_def line_def)

lemma idsOf_of_line: "idsOf x = map_of (snd (snd (line (fst x)))) ''ids''"
  by (simp add: idsOf_def line_def)

lemma wizard_endpoints:
  "map (\<lambda>l. (fst l, fst (snd l))) (map line (wizardRequests ids sch br)) = wizardSequence"
  by (simp add: wizardRequests_def wizardSequence_def line_def typeSelectRequest_def
      schedulerSelectRequest_def timeSelectRequest_def timeFetchRequest_def)

lemma wizard_ids:
  "map (\<lambda>l. map_of (snd (snd l)) ''ids'') (map line (wizardRequests ids sch br))
     = [None, Some (firstId ids), Some (firstId ids), Some (firstId ids)]"
  by (simp add: wizardRequests_def line_def typeSelectRequest_def
      schedulerSelectRequest_def timeSelectRequest_def timeFetchRequest_def)

lemma getAvailableTimes_endpoints:
  obtains k where "k \<in> {1, 2, 3, 4}"
    "map endpoint (issued s (snd (getAvailableTimes srv ids sch br s))) = take k wizardSequence"
    "map idsOf (issued s (snd (getAvailableTimes srv ids sch br s)))
       = take k [None, Some (firstId ids), Some (firstId ids), Some (firstId ids)]"
proof -
  obtain t s' k where r: "getAvailableTimes srv ids sch br s = (Inr t, s')" and k: "k \<in> {1, 2, 3, 4}"
    and l: "map (line \<circ> fst) (issued s s') = take k (map line (wizardRequests ids sch br))"
    by (rule getAvailableTimes_run)
  have "map endpoint (issued s s') = map (\<lambda>l. (fst l, fst (snd l))) (map (line \<circ> fst) (issued s s'))"
    by (simp add: endpoint_of_line)
  also have "\<dots> = take k wizardSequence"
    unfolding l by (simp only: take_map[symmetric] wizard_endpoints)
  finally have e: "map endpoint (issued s s') = take k wizardSequence" .
  have "map idsOf (issued s s') = map (\<lambda>l. map_of (snd (snd l)) ''ids'') (map (line \<circ> fst) (issued s s'))"
    by (simp add: idsOf_of_line)
  also have "\<dots> = take k [None, Some (firstId ids), Some (firstId ids), Some (firstId ids)]"
    unfolding l by (simp only: take_map[symmetric] wizard_ids)
  finally have i: "map idsOf (issued s s') = take k [None, Some (firstId ids), Some (firstId ids), Some (firstId ids)]" .
  show thesis using that[OF k] e i r by simp
qed

lemma getNextWeekTimes_ids:
  "map idsOf (issued s (snd (getNextWeekTimes srv ids sch br s))) = [Some (Str (joinIds ids))]"
proof -
  obtain r s1 where 1: "send srv defaultValidateStatus (nextWeekRequest (joinIds ids) sch br) s = (r, s1)"
    by force
  have "snd (getNextWeekTimes srv ids sch br s) = s1"
    using 1 by (cases r) (simp_all add: getNextWeekTimes_def Let_def try_catch_def await_def resolve_def)
  then show ?thesis using send_exchanges[OF 1]
    by (simp add: issued_def idsOf_def nextWeekRequest_def)
qed

lemma bookAppointment_ids:
  "map idsOf (issued s (snd (bookAppointment srv ids sch d t len s)))
     \<in> {[Some (Str (joinIds ids))], [Some (Str (joinIds ids)), None]}"
proof (cases rule: bookAppointment_cases[of srv ids sch d t len s])
  case (page_failed x1 s1 msg)
  then show ?thesis
    by (simp add: issued_def idsOf_of_line) (simp add: line_def bookingPageRequest_def)
next
  case (asked x1 x2 s2)
  then show ?thesis
    by (simp add: issued_def idsOf_of_line) (simp add: line_def bookingPageRequest_def askAppointmentRequest_def)
qed

lemma getAvailableTimes_first_only:
  "getAvailableTimes srv (x # xs) sch br = getAvailableTimes srv [x] sch br"
  by (simp add: getAvailableTimes_def)

lemma getAvailableTimes_demo:
  "map endpoint (issued newClient (snd (getAvailableTimes (routes []) [37331, 3928] 6132 0 newClient)))
     = wizardSequence"
  "map idsOf (issued newClient (snd (getAvailableTimes (routes []) [37331, 3928] 6132 0 newClient)))
     = [None, Some (Num 37331), Some (Num 37331), Some (Num 37331)]"
  by (simp_all add: getAvailableTimes_def try_catch_def await_def resolve_def send_def Let_def
      routes_def statusBelow400_def issued_def newClient_def endpoint_def idsOf_def wizardSequence_def
      typeSelectRequest_def schedulerSelectRequest_def timeSelectRequest_def timeFetchRequest_def)

lemma string_of_int_demo: "string_of_int 37331 = ''37331''" "string_of_int 3928 = ''3928''"
  by (simp_all add: string_of_int_def digit_char_def)

section \<open>Runs against the servers\<close>

text \<open>Runs on given servers are evaluated by rewriting with the definitions. Then the
  whole flow is put together from the runs of its three methods.\<close>

lemma parse_demo:
  "parseCookie ''sid=1; path=/'' = Some (''sid'', ''1'')"
  "parseCookie '' lang = he'' = Some (''lang'', '' he'')"
  "parseCookie ''sid=2=3; HttpOnly'' = Some (''sid'', ''2=3'')"
  "parseCookie ''flag'' = None"
  by (simp_all add: parseCookie_def trim_def js_whitespace_def)

lemma store_demo:
  "captureCookies (Some [''sid=1; path=/'', '' lang = he'', ''flag'', ''sid=2=3; HttpOnly'']) old
     = [''sid=2=3'', ''lang= he'']"
  by (simp add: captureCookies_def cookieMap_def parse_demo cookieEntry_def)

lemma url_of_line: "line (fst x) = line rq \<Longrightarrow> url (fst x) = url rq"
  by (simp add: line_def)

lemma answers_simps [simp]:
  "answers p [] = []"
  "answers p (x # xs) = (if url (fst x) = p then snd x # answers p xs else answers p xs)"
  by (simp_all add: answers_def)

lemmas run_defs =
  validateMobile_def login_def getAvailableTimes_def getNextWeekTimes_def bookAppointment_def
  try_catch_def await_def resolve_def reject_def send_def Let_def routes_def
  defaultValidateStatus_def statusBelow400_def errorStatus_def embeddedMessage_def js_or_def
  issued_def newClient_def

lemma token_demo:
  "tokenMatch loginPageHtml = Some ''tok123''"
  "tokenMatch barePageHtml = None"
  by (simp_all add: loginPageHtml_def barePageHtml_def match_here_def tokenField_def
      match_value_def is_quote_def)

lemma login_vendor:
  "fst (login (routes vendor) ''0544458876'' newClient) = Inr True"
  "answers ''/Account/LoginMobileClient''
     (issued newClient (snd (login (routes vendor) ''0544458876'' newClient)))
     = [Response 302 (Some [''auth=abc; path=/; HttpOnly'']) (Text [])]"
  by (simp_all add: run_defs vendor_def token_demo)

lemma login_refused:
  "fst (login (routes ((''/Account/LoginMobileClient'', out) # vendor)) ''0544458876'' newClient)
     = Inr (loginVerdict out)"
  "answers ''/Account/LoginMobileClient''
     (issued newClient (snd (login (routes ((''/Account/LoginMobileClient'', out) # vendor))
        ''0544458876'' newClient)))
     = [out]"
  by (cases out; simp add: run_defs vendor_def token_demo loginVerdict_def)+

lemma login_bare_page:
  "fst (login (routes [(''/Account/LoginClients'', Response 200 None (Text barePageHtml))])
         ''0544458876'' newClient) = Inr False"
  "answers ''/Account/LoginClients''
     (issued newClient (snd (login (routes [(''/Account/LoginClients'', Response 200 None (Text barePageHtml))])
         ''0544458876'' newClient)))
     = [Response 200 None (Text barePageHtml)]"
  "map endpoint
     (issued newClient (snd (login (routes [(''/Account/LoginClients'', Response 200 None (Text barePageHtml))])
         ''0544458876'' newClient)))
     = [(POST, ''/Validate/Mobile''), (GET, ''/Account/LoginClients'')]"
  by (simp_all add: run_defs token_demo endpoint_def validateMobileRequest_def loginPageRequest_def)

lemma bookAppointment_demo:
  "fst (bookAppointment (routes []) [37331] 6132 ''2025-11-16'' ''10:00'' 7 newClient)
     = Inr (booked ''2025-11-16'' ''10:00'')"
  "answers ''/Clients/AskAppointment''
     (issued newClient (snd (bookAppointment (routes []) [37331] 6132 ''2025-11-16'' ''10:00'' 7 newClient)))
     = [Response 200 None (Text [])]"
  by (simp_all add: run_defs)

lemma bookAppointment_taken:
  "fst (bookAppointment (routes [(''/Clients/AskAppointment'', Response 500 None (Object (Some ''Slot taken'')))])
          [37331] 6132 ''2025-11-16'' ''10:00'' 7 newClient)
     = Inr (failure (Some ''Slot taken''))"
  "answers ''/Clients/AskAppointment''
     (issued newClient (snd (bookAppointment (routes [(''/Clients/AskAppointment'', Response 500 None (Object (Some ''Slot taken'')))])
          [37331] 6132 ''2025-11-16'' ''10:00'' 7 newClient)))
     = [Response 500 None (Object (Some ''Slot taken''))]"
  by (simp_all add: run_defs)

lemma bookAppointment_no_content:
  "fst (bookAppointment (routes [(''/Clients/AskAppointment'', Response 204 None (Text []))])
          [37331] 6132 ''2025-11-16'' ''10:00'' 7 newClient)
     = Inr (failure (Some ''Booking failed - unexpected response''))"
  "answers ''/Clients/AskAppointment''
     (issued newClient (snd (bookAppointment (routes [(''/Clients/AskAppointment'', Response 204 None (Text []))])
          [37331] 6132 ''2025-11-16'' ''10:00'' 7 newClient)))
     = [Response 204 None (Text [])]"
  by (simp_all add: run_defs)

lemma answers_append [simp]: "answers p (xs @ ys) = answers p xs @ answers p ys"
  by (simp add: answers_def)

lemma answers_none: "\<forall>x \<in> set xs. url (fst x) \<noteq> p \<Longrightarrow> answers p xs = []"
  by (induction xs) auto

lemma issued_chain:
  assumes "exchanges s1 = exchanges s @ issued s s1" "exchanges s2 = exchanges s1 @ ys"
  shows "issued s s2 = issued s s1 @ ys" "exchanges s2 = exchanges s @ issued s s2"
proof -
  define xs where "xs = issued s s1"
  have 1: "exchanges s1 = exchanges s @ xs" using assms(1) xs_def by simp
  have 2: "exchanges s2 = exchanges s @ xs @ ys" using 1 assms(2) by simp
  show 3: "issued s s2 = issued s s1 @ ys"
    unfolding xs_def[symmetric] by (simp add: issued_def 2)
  show "exchanges s2 = exchanges s @ issued s s2"
    unfolding 3 xs_def[symmetric] using 2 by simp
qed

lemma login_run:
  obtains b s1 where "login srv m s = (Inr b, s1)" "exchanges s1 = exchanges s @ issued s s1"
    "answers ''/Clients/AskAppointment'' (issued s s1) = []"
proof (cases rule: login_cases[of srv m s])
  case (invalid x1 s1)
  have "url (fst x1) = ''/Validate/Mobile''" using invalid(3) by (simp add: url_of_line)
  then show ?thesis using invalid(1,2) by (intro that[of False s1]) (simp_all add: issued_def)
next
  case (page_failed x1 x2 s2 ok)
  have "url (fst x1) = ''/Validate/Mobile''" "url (fst x2) = ''/Account/LoginClients''"
    using page_failed(3,4) by (simp_all add: url_of_line)
  then show ?thesis using page_failed(1,2) by (intro that[of ok s2]) (simp_all add: issued_def)
next
  case (no_token x1 x2 s2 code hs d)
  have "url (fst x1) = ''/Validate/Mobile''" "url (fst x2) = ''/Account/LoginClients''"
    using no_token(3,4) by (simp_all add: url_of_line)
  then show ?thesis using no_token(1,2) by (intro that[of False s2]) (simp_all add: issued_def)
next
  case (submitted x1 x2 x3 s3 code hs d tok)
  have "url (fst x1) = ''/Validate/Mobile''" "url (fst x2) = ''/Account/LoginClients''"
    "url (fst x3) = ''/Account/LoginMobileClient''"
    using submitted(3,4,8) by (simp_all add: url_of_line)
  then show ?thesis using submitted(1,2)
    by (intro that[of "loginVerdict (snd x3)" s3]) (simp_all add: issued_def)
qed

lemma wizard_urls:
  "l \<in> set (map line (wizardRequests ids sch br)) \<Longrightarrow> fst (snd l) \<noteq> ''/Clients/AskAppointment''"
  by (auto simp: wizardRequests_def line_def)

lemma getAvailableTimes_quiet:
  obtains t s' where "getAvailableTimes srv ids sch br s = (Inr t, s')"
    "exchanges s' = exchanges s @ issued s s'"
    "answers ''/Clients/AskAppointment'' (issued s s') = []"
proof -
  obtain t s' k where r: "getAvailableTimes srv ids sch br s = (Inr t, s')"
    and l: "map (line \<circ> fst) (issued s s') = take k (map line (wizardRequests ids sch br))"
    and x: "exchanges s' = exchanges s @ issued s s'"
    by (rule getAvailableTimes_run)
  have "url (fst x) \<noteq> ''/Clients/AskAppointment''" if "x \<in> set (issued s s')" for x
  proof -
    have "line (fst x) \<in> set (map (line \<circ> fst) (issued s s'))" using that by force
    then have "line (fst x) \<in> set (map line (wizardRequests ids sch br))"
      unfolding l by (rule in_set_takeD)
    then have "fst (snd (line (fst x))) \<noteq> ''/Clients/AskAppointment''" by (rule wizard_urls)
    then show ?thesis by (simp add: line_def)
  qed
  then have "answers ''/Clients/AskAppointment'' (issued s s') = []"
    by (intro answers_none) blast
  with r x show thesis by (rule that)
qed

lemma completeBooking_login_failed:
  "login srv (mobile cfg) s = (Inr False, s1) \<Longrightarrow>
   completeBooking srv cfg s = (Inr (failure (Some ''Login failed'')), s1)"
  by (simp add: completeBooking_def completeBooking_flow_def completeBooking_try_def
      try_catch_def await_def resolve_def)

lemma completeBooking_no_slot:
  "login srv (mobile cfg) s = (Inr True, s1) \<Longrightarrow>
   getAvailableTimes srv [orDefault (serviceTypeId cfg) 37331] (orDefault (schedulerId cfg) 6132) 0 s1
     = (Inr tm, s2) \<Longrightarrow>
   BookingConfig.date cfg = None \<or> BookingConfig.time cfg = None \<Longrightarrow>
   completeBooking srv cfg s = (Inr loggedInOnly, s2)"
  by (auto simp: completeBooking_def completeBooking_flow_def completeBooking_try_def
      try_catch_def await_def resolve_def Let_def split: option.splits)

lemma completeBooking_slot:
  "login srv (mobile cfg) s = (Inr True, s1) \<Longrightarrow>
   getAvailableTimes srv [orDefault (serviceTypeId cfg) 37331] (orDefault (schedulerId cfg) 6132) 0 s1
     = (Inr tm, s2) \<Longrightarrow>
   BookingConfig.date cfg = Some d \<Longrightarrow> BookingConfig.time cfg = Some t \<Longrightarrow> d \<noteq> [] \<Longrightarrow> t \<noteq> [] \<Longrightarrow>
   bookAppointment srv [orDefault (serviceTypeId cfg) 37331] (orDefault (schedulerId cfg) 6132) d t 7 s2
     = (Inr r, s3) \<Longrightarrow>
   completeBooking srv cfg s = (Inr r, s3)"
  by (simp add: completeBooking_def completeBooking_flow_def completeBooking_try_def
      try_catch_def await_def resolve_def Let_def)

lemma completeBooking_booked:
  assumes l: "fst (login srv (mobile cfg) s) = Inr True"
    and a: "Response 200 hs b \<in> set (answers ''/Clients/AskAppointment''
                                     (issued s (snd (completeBooking srv cfg s))))"
    and d: "BookingConfig.date cfg = Some d" "d \<noteq> []"
    and t: "BookingConfig.time cfg = Some t" "t \<noteq> []"
  shows "fst (completeBooking srv cfg s) = Inr (booked d t)"
proof -
  let ?ids = "[orDefault (serviceTypeId cfg) 37331]"
  let ?sch = "orDefault (schedulerId cfg) 6132"
  obtain ok s1 where 1: "login srv (mobile cfg) s = (Inr ok, s1)"
    and x1: "exchanges s1 = exchanges s @ issued s s1"
    and q1: "answers ''/Clients/AskAppointment'' (issued s s1) = []"
    by (rule login_run)
  from l 1 have ok: "ok" by simp
  obtain tm s2 where 2: "getAvailableTimes srv ?ids ?sch 0 s1 = (Inr tm, s2)"
    and x2: "exchanges s2 = exchanges s1 @ issued s1 s2"
    and q2: "answers ''/Clients/AskAppointment'' (issued s1 s2) = []"
    by (rule getAvailableTimes_quiet)
  show ?thesis
  proof (cases rule: bookAppointment_cases[of srv ?ids ?sch d t 7 s2])
    case (page_failed y1 s3 msg)
    have u: "url (fst y1) = ''/Clients/TimeSelect''" using page_failed(3) by (simp add: url_of_line)
    have c: "completeBooking srv cfg s = (Inr (failure msg), s3)"
      using completeBooking_slot[OF 1[unfolded ok[THEN eqTrueI]] 2 d(1) t(1) d(2) t(2) page_failed(1)] .
    have "issued s s3 = issued s s1 @ issued s1 s2 @ [y1]"
      using issued_chain(1)[OF issued_chain(2)[OF x1 x2] page_failed(2)] issued_chain(1)[OF x1 x2]
      by simp
    then have "answers ''/Clients/AskAppointment'' (issued s s3) = []"
      using q1 q2 u by simp
    then show ?thesis using a c by simp
  next
    case (asked y1 y2 s3)
    have u: "url (fst y1) = ''/Clients/TimeSelect''" "url (fst y2) = ''/Clients/AskAppointment''"
      using asked(3,4) by (simp_all add: url_of_line)
    have c: "completeBooking srv cfg s = (Inr (bookingVerdict d t (snd y2)), s3)"
      using completeBooking_slot[OF 1[unfolded ok[THEN eqTrueI]] 2 d(1) t(1) d(2) t(2) asked(1)] .
    have "issued s s3 = issued s s1 @ issued s1 s2 @ [y1, y2]"
      using issued_chain(1)[OF issued_chain(2)[OF x1 x2] asked(2)] issued_chain(1)[OF x1 x2]
      by simp
    then have "answers ''/Clients/AskAppointment'' (issued s s3) = [snd y2]"
      using q1 q2 u by simp
    then have "snd y2 = Response 200 hs b" using a c by simp
    then show ?thesis using c by (simp add: bookingVerdict_def)
  qed
qed

lemmas flow_defs =
  completeBooking_def completeBooking_flow_def completeBooking_try_def completeBooking_catch_def
  demoConfig_def

lemma completeBooking_vendor:
  "fst (completeBooking (routes vendor) demoConfig newClient) = Inr (booked ''2025-11-16'' ''10:00'')"
  "answers ''/Clients/AskAppointment''
     (issued newClient (snd (completeBooking (routes vendor) demoConfig newClient)))
     = [Response 200 None (Text [])]"
  by (simp_all add: flow_defs run_defs vendor_def token_demo)

lemma completeBooking_login_only:
  "fst (login (routes vendor) (mobile loginOnlyConfig) newClient) = Inr True"
  "map endpoint (issued newClient
      (snd (completeBooking (routes vendor) loginOnlyConfig newClient)))
     = [(POST, ''/Validate/Mobile''), (GET, ''/Account/LoginClients''),
        (POST, ''/Account/LoginMobileClient''), (GET, ''/Clients/TypeSelect/0''),
        (GET, ''/Clients/SchedulerSelect''), (GET, ''/Clients/TimeSelect''),
        (POST, ''/Clients/TimeSelectScheduler'')]"
  by (simp_all add: flow_defs loginOnlyConfig_def run_defs vendor_def token_demo endpoint_def
      validateMobileRequest_def loginPageRequest_def loginSubmitRequest_def typeSelectRequest_def
      schedulerSelectRequest_def timeSelectRequest_def timeFetchRequest_def)

lemma login_invalid_mobile:
  "fst (login (routes [(''/Validate/Mobile'', Response 500 None (Text []))]) (mobile demoConfig) newClient)
     = Inr False"
  by (simp add: run_defs demoConfig_def)

lemma completeBooking_try_raises:
  "completeBooking_try (\<lambda>m. reject (Error ''boom'' None)) (getAvailableTimes (routes []))
     (bookAppointment (routes [])) demoConfig newClient
     = (Inl (Error ''boom'' None), newClient)"
  by (simp add: completeBooking_try_def await_def reject_def)

lemma completeBooking_flaky:
  "fst (completeBooking (routes ((''/Clients/TypeSelect/0'', NetworkError ''socket hang up'') # vendor))
          demoConfig newClient)
     = Inr (booked ''2025-11-16'' ''10:00'')"
  "answers ''/Clients/TypeSelect/0''
     (issued newClient
        (snd (completeBooking (routes ((''/Clients/TypeSelect/0'', NetworkError ''socket hang up'') # vendor))
                demoConfig newClient)))
     = [NetworkError ''socket hang up'']"
  by (simp_all add: flow_defs run_defs vendor_def token_demo)

lemma send_flaky:
  "fst (send (routes ((''/Clients/TypeSelect/0'', NetworkError ''socket hang up'') # vendor))
          statusBelow400 typeSelectRequest s)
     = Inl (Error ''socket hang up'' None)"
  by (simp add: send_def Let_def routes_def)

lemma bookAppointment_returns: "\<exists>r. fst (bookAppointment srv ids sch d t len s) = Inr r"
  by (cases rule: bookAppointment_cases[of srv ids sch d t len s]) simp_all

lemma completeBooking_try_returns:
  "\<exists>r. fst (completeBooking_try (login srv) (getAvailableTimes srv) (bookAppointment srv) cfg s) = Inr r"
proof -
  let ?ids = "[orDefault (serviceTypeId cfg) 37331]"
  let ?sch = "orDefault (schedulerId cfg) 6132"
  obtain ok s1 where 1: "login srv (mobile cfg) s = (Inr ok, s1)"
    by (rule login_run)
  obtain tm s2 where 2: "getAvailableTimes srv ?ids ?sch 0 s1 = (Inr tm, s2)"
    by (rule getAvailableTimes_quiet)
  show ?thesis
    using 1 2 bookAppointment_returns[of srv ?ids ?sch _ _ 7 s2]
    by (auto simp: completeBooking_try_def await_def resolve_def Let_def split: option.splits)
qed

lemma vendor_cookies:
  "captureCookies (Some [''sid=1; path=/'', ''lang=he'']) old = [''sid=1'', ''lang=he'']"
  "captureCookies (Some [''auth=abc; path=/; HttpOnly'']) old = [''auth=abc'']"
  by (simp_all add: captureCookies_def cookieMap_def parseCookie_def trim_def js_whitespace_def
      cookieEntry_def)

lemma vendor_store:
  "sessionCookies (snd (send (routes vendor) defaultValidateStatus loginPageRequest newClient))
     = [''sid=1'', ''lang=he'']"
  "sessionCookies (snd (login (routes vendor) ''0544458876'' newClient)) = [''auth=abc'']"
  by (simp_all add: run_defs vendor_def token_demo vendor_cookies captureCookies_def[of None])

section \<open>The claims\<close>

subsection \<open>The whole flow\<close>

text \<open>
  Claim C1. Take any server and any client state. If \<^verbatim>\<open>login\<close> with mobile
  0544458876 is accepted, and in the run of \<^verbatim>\<open>completeBooking\<close> the server answers
  the booking call (the call to \<^verbatim>\<open>/Clients/AskAppointment\<close>) with status 200, then
  \<^verbatim>\<open>completeBooking\<close> with that mobile, date 2025-11-16 and time 10:00 returns the
  success result with that date and that time. The identifiers of the configuration are
  arbitrary.
\<close>

theorem completeBooking_end_to_end:
  assumes "fst (login srv ''0544458876'' s) = Inr True"
    and "Response 200 hs b \<in> set (answers ''/Clients/AskAppointment''
                                     (issued s (snd (completeBooking srv cfg s))))"
    and "mobile cfg = ''0544458876''"
    and "BookingConfig.date cfg = Some ''2025-11-16''"
    and "BookingConfig.time cfg = Some ''10:00''"
  shows "fst (completeBooking srv cfg s) =
           Inr \<lparr>success = True, message = Some ''Appointment booked successfully'',
                appointmentId = None, date = Some ''2025-11-16'', time = Some ''10:00''\<rparr>"
proof -
  have "fst (login srv (mobile cfg) s) = Inr True" using assms(1,3) by simp
  from completeBooking_booked[OF this assms(2) assms(4) _ assms(5)]
  show ?thesis by (simp add: booked_def)
qed

theorem completeBooking_end_to_end_witness:
  "fst (login (routes vendor) ''0544458876'' newClient) = Inr True \<and>
   answers ''/Clients/AskAppointment''
     (issued newClient (snd (completeBooking (routes vendor) demoConfig newClient)))
     = [Response 200 None (Text [])] \<and>
   fst (completeBooking (routes vendor) demoConfig newClient) =
     Inr \<lparr>success = True, message = Some ''Appointment booked successfully'',
          appointmentId = None, date = Some ''2025-11-16'', time = Some ''10:00''\<rparr>"
proof -
  have l: "fst (login (routes vendor) ''0544458876'' newClient) = Inr True"
    by (rule login_vendor)
  have a: "Response 200 None (Text []) \<in> set (answers ''/Clients/AskAppointment''
     (issued newClient (snd (completeBooking (routes vendor) demoConfig newClient))))"
    by (simp add: completeBooking_vendor)
  have "fst (completeBooking (routes vendor) demoConfig newClient) =
     Inr \<lparr>success = True, message = Some ''Appointment booked successfully'',
          appointmentId = None, date = Some ''2025-11-16'', time = Some ''10:00''\<rparr>"
    by (rule completeBooking_end_to_end[OF l a]) (simp_all add: demoConfig_def)
  then show ?thesis using l by (simp add: completeBooking_vendor)
qed

subsection \<open>The result of login\<close>

text \<open>
  Claim C2, as amended. When the login submission has a response, \<^verbatim>\<open>login\<close> returns
  true exactly when the status is 200 or 302, and false for every other status, other
  success and redirect statuses included. It returns false when the submission fails with
  no response. It returns false when the login page was accepted (a status from 200 to
  299) and the token pattern finds nothing in its body.
\<close>

theorem login_result:
  "(\<forall>code hs b. Response code hs b \<in> set (answers ''/Account/LoginMobileClient'' (issued s (snd (login srv m s))))
      \<longrightarrow> fst (login srv m s) = Inr (code = 200 \<or> code = 302)) \<and>
   (\<forall>msg. NetworkError msg \<in> set (answers ''/Account/LoginMobileClient'' (issued s (snd (login srv m s))))
      \<longrightarrow> fst (login srv m s) = Inr False) \<and>
   (\<forall>code hs b. Response code hs b \<in> set (answers ''/Account/LoginClients'' (issued s (snd (login srv m s))))
        \<and> 200 \<le> code \<and> code < 300 \<and> (\<forall>tok. extractToken b \<noteq> Inr (Some tok))
      \<longrightarrow> fst (login srv m s) = Inr False)"
proof (cases rule: login_cases[of srv m s])
  case (invalid x1 s1)
  then show ?thesis
    by (simp add: issued_def) (simp add: url_of_line)
next
  case (page_failed x1 x2 s2 ok)
  have u: "url (fst x1) = ''/Validate/Mobile''" "url (fst x2) = ''/Account/LoginClients''"
    using page_failed(3,4) by (simp_all add: url_of_line)
  have nf: "\<not> (200 \<le> code \<and> code < 300)" if "Response code hs d = snd x2" for code hs d
    using page_failed(5)[OF that[symmetric]] by (simp add: defaultValidateStatus_def)
  show ?thesis using page_failed(1,2) u nf
    by (auto simp: issued_def)
next
  case (no_token x1 x2 s2 code hs d)
  have u: "url (fst x1) = ''/Validate/Mobile''" "url (fst x2) = ''/Account/LoginClients''"
    using no_token(3,4) by (simp_all add: url_of_line)
  show ?thesis using no_token(1,2) u
    by (simp add: issued_def)
next
  case (submitted x1 x2 x3 s3 code hs d tok)
  have u: "url (fst x1) = ''/Validate/Mobile''" "url (fst x2) = ''/Account/LoginClients''"
    "url (fst x3) = ''/Account/LoginMobileClient''"
    using submitted(3,4,8) by (simp_all add: url_of_line)
  show ?thesis
  proof (cases "snd x3")
    case (Response c h bd)
    then show ?thesis using submitted(1,2,5,7) u
      by (auto simp: issued_def loginVerdict_def)
  next
    case (NetworkError msg)
    then show ?thesis using submitted(1,2,5,7) u
      by (auto simp: issued_def loginVerdict_def)
  qed
qed

theorem login_result_witness:
  "answers ''/Account/LoginMobileClient''
     (issued newClient (snd (login (routes vendor) ''0544458876'' newClient)))
     = [Response 302 (Some [''auth=abc; path=/; HttpOnly'']) (Text [])] \<and>
   fst (login (routes vendor) ''0544458876'' newClient) = Inr True \<and>
   answers ''/Account/LoginMobileClient''
     (issued newClient (snd (login (routes ((''/Account/LoginMobileClient'', Response 404 None (Text [])) # vendor))
        ''0544458876'' newClient)))
     = [Response 404 None (Text [])] \<and>
   fst (login (routes ((''/Account/LoginMobileClient'', Response 404 None (Text [])) # vendor))
        ''0544458876'' newClient) = Inr False \<and>
   answers ''/Account/LoginMobileClient''
     (issued newClient (snd (login (routes ((''/Account/LoginMobileClient'', NetworkError ''timeout'') # vendor))
        ''0544458876'' newClient)))
     = [NetworkError ''timeout''] \<and>
   fst (login (routes ((''/Account/LoginMobileClient'', NetworkError ''timeout'') # vendor))
        ''0544458876'' newClient) = Inr False \<and>
   answers ''/Account/LoginClients''
     (issued newClient (snd (login (routes [(''/Account/LoginClients'', Response 200 None (Text barePageHtml))])
         ''0544458876'' newClient)))
     = [Response 200 None (Text barePageHtml)] \<and>
   tokenMatch barePageHtml = None \<and>
   fst (login (routes [(''/Account/LoginClients'', Response 200 None (Text barePageHtml))])
         ''0544458876'' newClient) = Inr False"
proof -
  let ?ok = "Response 302 (Some [''auth=abc; path=/; HttpOnly'']) (Text [])"
  have h: "?ok \<in> set (answers ''/Account/LoginMobileClient''
     (issued newClient (snd (login (routes vendor) ''0544458876'' newClient))))"
    by (simp add: login_vendor)
  have 1: "fst (login (routes vendor) ''0544458876'' newClient) = Inr ((302::int) = 200 \<or> (302::int) = 302)"
    using login_result[of newClient "routes vendor" "''0544458876''"] h by blast
  let ?srv = "routes ((''/Account/LoginMobileClient'', Response 404 None (Text [])) # vendor)"
  have h': "Response 404 None (Text []) \<in> set (answers ''/Account/LoginMobileClient''
     (issued newClient (snd (login ?srv ''0544458876'' newClient))))"
    by (simp add: login_refused)
  have 2: "fst (login ?srv ''0544458876'' newClient) = Inr ((404::int) = 200 \<or> (404::int) = 302)"
    using login_result[of newClient ?srv "''0544458876''"] h' by blast
  let ?off = "routes ((''/Account/LoginMobileClient'', NetworkError ''timeout'') # vendor)"
  have h'': "NetworkError ''timeout'' \<in> set (answers ''/Account/LoginMobileClient''
     (issued newClient (snd (login ?off ''0544458876'' newClient))))"
    by (simp add: login_refused)
  have 3: "fst (login ?off ''0544458876'' newClient) = Inr False"
    using login_result[of newClient ?off "''0544458876''"] h'' by blast
  let ?bare = "routes [(''/Account/LoginClients'', Response 200 None (Text barePageHtml))]"
  have p: "Response 200 None (Text barePageHtml) \<in> set (answers ''/Account/LoginClients''
     (issued newClient (snd (login ?bare ''0544458876'' newClient))))"
    by (simp add: login_bare_page)
  have n: "\<forall>tok. extractToken (Text barePageHtml) \<noteq> Inr (Some tok)"
    by (simp add: token_demo)
  have c: "(200::int) \<le> 200 \<and> (200::int) < 300" by simp
  have 4: "fst (login ?bare ''0544458876'' newClient) = Inr False"
    using login_result[of newClient ?bare "''0544458876''"] p n c by blast
  show ?thesis using 1 2 3 4 by (simp add: login_vendor login_refused login_bare_page token_demo)
qed

text \<open>
  The claim as stated makes every success status and every redirect status a successful
  login. The redirect 303 and the success 204 on the login submission both give false.
\<close>

theorem login_result_counterexample:
  "answers ''/Account/LoginMobileClient''
     (issued newClient (snd (login (routes ((''/Account/LoginMobileClient'', Response 303 None (Text [])) # vendor))
        ''0544458876'' newClient)))
     = [Response 303 None (Text [])] \<and>
   fst (login (routes ((''/Account/LoginMobileClient'', Response 303 None (Text [])) # vendor))
        ''0544458876'' newClient) = Inr False \<and>
   answers ''/Account/LoginMobileClient''
     (issued newClient (snd (login (routes ((''/Account/LoginMobileClient'', Response 204 None (Text [])) # vendor))
        ''0544458876'' newClient)))
     = [Response 204 None (Text [])] \<and>
   fst (login (routes ((''/Account/LoginMobileClient'', Response 204 None (Text [])) # vendor))
        ''0544458876'' newClient) = Inr False"
  by (simp add: login_refused loginVerdict_def)

subsection \<open>The session cookie store\<close>

text \<open>
  Claim C3. When a response with \<^verbatim>\<open>Set-Cookie\<close> lines has been processed, the store
  holds exactly one entry for every cookie name the lines give, and the value of the
  entry is the one of the last line with that name. This holds for any number of lines,
  two or more among them. A line names a cookie when its part before the first semicolon
  has a name that is not empty before an equals sign.
\<close>

theorem captureCookies_last_write_wins:
  "distinct (map cookieName (captureCookies (Some hs) old)) \<and>
   set (map cookieName (captureCookies (Some hs) old)) = fst ` set (parsedCookies hs) \<and>
   (\<forall>e \<in> set (captureCookies (Some hs) old).
      lastValue (cookieName e) (parsedCookies hs) = Some (cookieValue e))"
proof -
  have s: "captureCookies (Some hs) old = map cookieEntry (cookieMap hs)"
    by (simp add: captureCookies_def)
  have 1: "distinct (map cookieName (captureCookies (Some hs) old))"
    unfolding s names_store by (rule cookieMap_distinct)
  have 2: "set (map cookieName (captureCookies (Some hs) old)) = fst ` set (parsedCookies hs)"
    unfolding s names_store by (simp add: cookieMap_keys)
  have 3: "lastValue (cookieName e) (parsedCookies hs) = Some (cookieValue e)"
    if "e \<in> set (captureCookies (Some hs) old)" for e
  proof -
    from that obtain n v where nv: "(n, v) \<in> set (cookieMap hs)" "e = cookieEntry (n, v)"
      unfolding s by auto
    then have ne: "CHR ''='' \<notin> set n" by (auto dest: cookieMap_name)
    have "map_of (cookieMap hs) n = Some v" using nv(1) cookieMap_distinct by simp
    then show ?thesis using ne nv(2)
      by (simp add: lastValue_def cookieMap_map_of cookieName_entry cookieValue_entry)
  qed
  from 1 2 3 show ?thesis by blast
qed

theorem captureCookies_last_write_wins_witness:
  "captureCookies (Some [''sid=1; path=/'', '' lang = he'', ''flag'', ''sid=2=3; HttpOnly'']) [''old=0'']
     = [''sid=2=3'', ''lang= he''] \<and>
   lastValue ''sid'' (parsedCookies [''sid=1; path=/'', '' lang = he'', ''flag'', ''sid=2=3; HttpOnly''])
     = Some ''2=3'' \<and>
   lastValue ''lang'' (parsedCookies [''sid=1; path=/'', '' lang = he'', ''flag'', ''sid=2=3; HttpOnly''])
     = Some '' he''"
  using captureCookies_last_write_wins
    [of "[''sid=1; path=/'', '' lang = he'', ''flag'', ''sid=2=3; HttpOnly'']" "[''old=0'']"]
  by (simp add: store_demo cookieName_def cookieValue_def)

subsection \<open>The calls of the time lookup\<close>

text \<open>
  Claim C4. Every run of \<^verbatim>\<open>getAvailableTimes\<close> issues its calls in the order
  type selection, provider selection, time selection, time fetch: what it issues is a
  beginning of that sequence, never empty, since a call that fails ends the run. The
  time fetch is issued exactly when all four calls are, so never before the three pages.
\<close>

theorem getAvailableTimes_order:
  "map endpoint (issued s (snd (getAvailableTimes srv ids sch br s))) \<noteq> [] \<and>
   prefix (map endpoint (issued s (snd (getAvailableTimes srv ids sch br s)))) wizardSequence \<and>
   ((POST, ''/Clients/TimeSelectScheduler'')
       \<in> set (map endpoint (issued s (snd (getAvailableTimes srv ids sch br s)))))
    = (map endpoint (issued s (snd (getAvailableTimes srv ids sch br s))) = wizardSequence)"
proof -
  obtain k where k: "k \<in> {1, 2, 3, 4::nat}"
    and e: "map endpoint (issued s (snd (getAvailableTimes srv ids sch br s))) = take k wizardSequence"
    by (rule getAvailableTimes_endpoints)
  have "take k wizardSequence \<noteq> [] \<and> prefix (take k wizardSequence) wizardSequence \<and>
        ((POST, ''/Clients/TimeSelectScheduler'') \<in> set (take k wizardSequence))
          = (take k wizardSequence = wizardSequence)"
    using k by (auto simp: wizardSequence_def take_Suc_Cons numeral_2_eq_2 numeral_3_eq_3)
  then show ?thesis unfolding e .
qed

theorem getAvailableTimes_order_witness:
  "map endpoint (issued newClient (snd (getAvailableTimes (routes []) [37331, 3928] 6132 0 newClient)))
     = [(GET, ''/Clients/TypeSelect/0''), (GET, ''/Clients/SchedulerSelect''),
        (GET, ''/Clients/TimeSelect''), (POST, ''/Clients/TimeSelectScheduler'')] \<and>
   (POST, ''/Clients/TimeSelectScheduler'')
     \<in> set (map endpoint (issued newClient (snd (getAvailableTimes (routes []) [37331, 3928] 6132 0 newClient))))"
  using getAvailableTimes_order[of newClient "routes []" "[37331, 3928]" 6132 0]
  by (simp add: getAvailableTimes_demo) (simp add: wizardSequence_def)

subsection \<open>Exceptions in the whole flow\<close>

text \<open>
  Claim C5, as amended. \<^verbatim>\<open>completeBooking\<close> never raises, whatever the three
  methods it calls do. When \<^verbatim>\<open>login\<close> returns false the result is the failure with
  message "Login failed". An exception that leaves the try block is turned into a failure
  that carries its message, or "Booking failed" when the message is empty. Exceptions
  raised inside \<^verbatim>\<open>login\<close>, \<^verbatim>\<open>getAvailableTimes\<close> and \<^verbatim>\<open>bookAppointment\<close>
  do not leave those methods: with them the try block always returns a result, so
  nothing reaches that handler.
\<close>

theorem completeBooking_never_raises:
  "(\<forall>login' times' book'. \<exists>r. fst (completeBooking_flow login' times' book' cfg s) = Inr r) \<and>
   (\<exists>r. fst (completeBooking srv cfg s) = Inr r) \<and>
   (\<exists>r. fst (completeBooking_try (login srv) (getAvailableTimes srv) (bookAppointment srv) cfg s)
          = Inr r) \<and>
   (fst (login srv (mobile cfg) s) = Inr False \<longrightarrow>
      fst (completeBooking srv cfg s) =
        Inr \<lparr>success = False, message = Some ''Login failed'',
             appointmentId = None, date = None, time = None\<rparr>) \<and>
   (\<forall>login' times' book' e s'.
      completeBooking_try login' times' book' cfg s = (Inl e, s') \<longrightarrow>
      completeBooking_flow login' times' book' cfg s =
        (Inr \<lparr>success = False,
              message = Some (if emessage e = [] then ''Booking failed'' else emessage e),
              appointmentId = None, date = None, time = None\<rparr>, s'))"
proof -
  have a: "\<exists>r. fst (completeBooking_flow login' times' book' cfg s) = Inr r" for login' times' book'
    by (simp add: completeBooking_flow_def try_catch_def resolve_def split: prod.splits sum.splits)
  then have b: "\<exists>r. fst (completeBooking srv cfg s) = Inr r"
    by (simp add: completeBooking_def)
  have c: "fst (completeBooking srv cfg s) = Inr (failure (Some ''Login failed''))"
    if "fst (login srv (mobile cfg) s) = Inr False"
  proof -
    have "login srv (mobile cfg) s = (Inr False, snd (login srv (mobile cfg) s))"
      using that by (simp add: prod_eq_iff)
    from completeBooking_login_failed[OF this] show ?thesis by simp
  qed
  have d: "completeBooking_flow login' times' book' cfg s =
        (Inr \<lparr>success = False,
              message = Some (if emessage e = [] then ''Booking failed'' else emessage e),
              appointmentId = None, date = None, time = None\<rparr>, s')"
    if "completeBooking_try login' times' book' cfg s = (Inl e, s')" for login' times' book' e s'
    using that
    by (simp add: completeBooking_flow_def try_catch_def resolve_def completeBooking_catch_def
        failure_def js_or_def)
  show ?thesis using a b c d completeBooking_try_returns[of srv cfg s]
    by (simp add: failure_def)
qed

theorem completeBooking_never_raises_witness:
  "fst (login (routes [(''/Validate/Mobile'', Response 500 None (Text []))]) (mobile demoConfig) newClient)
     = Inr False \<and>
   fst (completeBooking (routes [(''/Validate/Mobile'', Response 500 None (Text []))]) demoConfig newClient)
     = Inr \<lparr>success = False, message = Some ''Login failed'',
            appointmentId = None, date = None, time = None\<rparr> \<and>
   completeBooking_try (\<lambda>m. reject (Error ''boom'' None)) (getAvailableTimes (routes []))
     (bookAppointment (routes [])) demoConfig newClient
     = (Inl (Error ''boom'' None), newClient) \<and>
   completeBooking_flow (\<lambda>m. reject (Error ''boom'' None)) (getAvailableTimes (routes []))
     (bookAppointment (routes [])) demoConfig newClient
     = (Inr \<lparr>success = False, message = Some ''boom'',
             appointmentId = None, date = None, time = None\<rparr>, newClient)"
proof -
  let ?srv = "routes [(''/Validate/Mobile'', Response 500 None (Text []))]"
  note t = completeBooking_never_raises[of demoConfig newClient ?srv]
  have 1: "fst (completeBooking ?srv demoConfig newClient)
     = Inr \<lparr>success = False, message = Some ''Login failed'',
            appointmentId = None, date = None, time = None\<rparr>"
    using t login_invalid_mobile by blast
  have "completeBooking_flow (\<lambda>m. reject (Error ''boom'' None)) (getAvailableTimes (routes []))
     (bookAppointment (routes [])) demoConfig newClient
     = (Inr \<lparr>success = False,
             message = Some (if emessage (Error ''boom'' None) = [] then ''Booking failed''
                             else emessage (Error ''boom'' None)),
             appointmentId = None, date = None, time = None\<rparr>, newClient)"
    using t completeBooking_try_raises by blast
  then show ?thesis using 1 login_invalid_mobile completeBooking_try_raises by simp
qed

text \<open>
  The claim as stated turns any exception raised in the chain into a failure with the
  message of the exception. Here the first call of the time lookup fails with no
  response, the client raises, \<^verbatim>\<open>getAvailableTimes\<close> absorbs it, and the booking goes
  on to succeed.
\<close>

theorem completeBooking_never_raises_counterexample:
  "fst (send (routes ((''/Clients/TypeSelect/0'', NetworkError ''socket hang up'') # vendor))
          statusBelow400 typeSelectRequest newClient)
     = Inl (Error ''socket hang up'' None) \<and>
   answers ''/Clients/TypeSelect/0''
     (issued newClient
        (snd (completeBooking (routes ((''/Clients/TypeSelect/0'', NetworkError ''socket hang up'') # vendor))
                demoConfig newClient)))
     = [NetworkError ''socket hang up''] \<and>
   fst (completeBooking (routes ((''/Clients/TypeSelect/0'', NetworkError ''socket hang up'') # vendor))
          demoConfig newClient)
     = Inr \<lparr>success = True, message = Some ''Appointment booked successfully'',
            appointmentId = None, date = Some ''2025-11-16'', time = Some ''10:00''\<rparr>"
  by (simp add: completeBooking_flaky send_flaky booked_def)

subsection \<open>The result of bookAppointment\<close>

text \<open>
  Claim C6, as amended. For every date, time and outcome of the booking call: status 200
  gives the success result with the date and the time as given; any other status from
  201 to 299 gives the failure "Booking failed - unexpected response"; a status outside
  200 to 299, which the client raises as an error, gives a failure with the message the
  server put in its body, or with the message of the error when there is none; a failure
  with no response gives a failure with the message of the error, or "Unknown error" when
  that is empty.
\<close>

theorem bookAppointment_result:
  assumes "out \<in> set (answers ''/Clients/AskAppointment''
                        (issued s (snd (bookAppointment srv ids sch d t len s))))"
  shows "fst (bookAppointment srv ids sch d t len s) =
    Inr (case out of
           Response code hs b \<Rightarrow>
             if code = 200
             then \<lparr>success = True, message = Some ''Appointment booked successfully'',
                   appointmentId = None, date = Some d, time = Some t\<rparr>
             else if 200 \<le> code \<and> code < 300
             then \<lparr>success = False, message = Some ''Booking failed - unexpected response'',
                   appointmentId = None, date = None, time = None\<rparr>
             else \<lparr>success = False,
                   message = Some (case b of
                                     Object (Some m) \<Rightarrow> if m = [] then statusMessage code else m
                                   | _ \<Rightarrow> statusMessage code),
                   appointmentId = None, date = None, time = None\<rparr>
         | NetworkError m \<Rightarrow>
             \<lparr>success = False, message = Some (if m = [] then ''Unknown error'' else m),
              appointmentId = None, date = None, time = None\<rparr>)"
proof (cases rule: bookAppointment_cases[of srv ids sch d t len s])
  case (page_failed x1 s1 msg)
  have "url (fst x1) = ''/Clients/TimeSelect''"
    using page_failed(3) by (simp add: url_of_line)
  then show ?thesis using assms page_failed(1,2) by (simp add: issued_def)
next
  case (asked x1 x2 s2)
  have u: "url (fst x1) = ''/Clients/TimeSelect''" "url (fst x2) = ''/Clients/AskAppointment''"
    using asked(3,4) by (simp_all add: url_of_line)
  have "out = snd x2" using assms asked(1,2) u by (simp add: issued_def)
  then show ?thesis using asked(1)
    by (simp add: bookingVerdict_def failure_def booked_def
        split: outcome.splits body.splits option.splits)
qed

theorem bookAppointment_result_witness:
  "answers ''/Clients/AskAppointment''
     (issued newClient (snd (bookAppointment (routes []) [37331] 6132 ''2025-11-16'' ''10:00'' 7 newClient)))
     = [Response 200 None (Text [])] \<and>
   fst (bookAppointment (routes []) [37331] 6132 ''2025-11-16'' ''10:00'' 7 newClient)
     = Inr \<lparr>success = True, message = Some ''Appointment booked successfully'',
            appointmentId = None, date = Some ''2025-11-16'', time = Some ''10:00''\<rparr>"
proof -
  have h: "Response 200 None (Text []) \<in> set (answers ''/Clients/AskAppointment''
     (issued newClient (snd (bookAppointment (routes []) [37331] 6132 ''2025-11-16'' ''10:00'' 7 newClient))))"
    by (simp add: bookAppointment_demo)
  show ?thesis using bookAppointment_result[OF h] by (simp add: bookAppointment_demo)
qed

text \<open>
  The claim as stated gives every status other than a success status the generic message,
  and every success status the success result. Status 500 with a message in the body
  gives that message, not the generic one, and status 204 gives a failure.
\<close>

theorem bookAppointment_result_counterexample:
  "fst (bookAppointment (routes [(''/Clients/AskAppointment'', Response 500 None (Object (Some ''Slot taken'')))])
          [37331] 6132 ''2025-11-16'' ''10:00'' 7 newClient)
     = Inr \<lparr>success = False, message = Some ''Slot taken'',
            appointmentId = None, date = None, time = None\<rparr> \<and>
   fst (bookAppointment (routes [(''/Clients/AskAppointment'', Response 204 None (Text []))])
          [37331] 6132 ''2025-11-16'' ''10:00'' 7 newClient)
     = Inr \<lparr>success = False, message = Some ''Booking failed - unexpected response'',
            appointmentId = None, date = None, time = None\<rparr>"
  by (simp add: bookAppointment_taken bookAppointment_no_content failure_def)

subsection \<open>No date or no time\<close>

text \<open>
  Claim C7. When the date or the time of the configuration is absent and \<^verbatim>\<open>login\<close>
  succeeds, \<^verbatim>\<open>completeBooking\<close> returns the success result with no date and no time.
  \<^verbatim>\<open>bookAppointment\<close> is not called: the run ends in the state the time lookup
  leaves, and no booking call is among its exchanges.
\<close>

theorem completeBooking_without_slot:
  assumes "fst (login srv (mobile cfg) s) = Inr True"
    and "BookingConfig.date cfg = None \<or> BookingConfig.time cfg = None"
  shows "fst (completeBooking srv cfg s) =
           Inr \<lparr>success = True,
                message = Some ''Logged in successfully. Use getAvailableTimes() to see available slots'',
                appointmentId = None, date = None, time = None\<rparr> \<and>
         answers ''/Clients/AskAppointment'' (issued s (snd (completeBooking srv cfg s))) = [] \<and>
         snd (completeBooking srv cfg s) =
           snd (getAvailableTimes srv [orDefault (serviceTypeId cfg) 37331]
                  (orDefault (schedulerId cfg) 6132) 0 (snd (login srv (mobile cfg) s)))"
proof -
  let ?ids = "[orDefault (serviceTypeId cfg) 37331]"
  let ?sch = "orDefault (schedulerId cfg) 6132"
  obtain ok s1 where 1: "login srv (mobile cfg) s = (Inr ok, s1)"
    and x1: "exchanges s1 = exchanges s @ issued s s1"
    and q1: "answers ''/Clients/AskAppointment'' (issued s s1) = []"
    by (rule login_run)
  from assms(1) 1 have ok: "ok" by simp
  obtain tm s2 where 2: "getAvailableTimes srv ?ids ?sch 0 s1 = (Inr tm, s2)"
    and x2: "exchanges s2 = exchanges s1 @ issued s1 s2"
    and q2: "answers ''/Clients/AskAppointment'' (issued s1 s2) = []"
    by (rule getAvailableTimes_quiet)
  have c: "completeBooking srv cfg s = (Inr loggedInOnly, s2)"
    using completeBooking_no_slot[OF 1[unfolded ok[THEN eqTrueI]] 2 assms(2)] .
  have "issued s s2 = issued s s1 @ issued s1 s2" using issued_chain(1)[OF x1 x2] .
  then have "answers ''/Clients/AskAppointment'' (issued s s2) = []" using q1 q2 by simp
  then show ?thesis using c 1 2 by (simp add: loggedInOnly_def)
qed

theorem completeBooking_without_slot_witness:
  "fst (login (routes vendor) (mobile loginOnlyConfig) newClient) = Inr True \<and>
   BookingConfig.time loginOnlyConfig = None \<and>
   fst (completeBooking (routes vendor) loginOnlyConfig newClient) =
     Inr \<lparr>success = True,
          message = Some ''Logged in successfully. Use getAvailableTimes() to see available slots'',
          appointmentId = None, date = None, time = None\<rparr> \<and>
   map endpoint (issued newClient
      (snd (completeBooking (routes vendor) loginOnlyConfig newClient)))
     = [(POST, ''/Validate/Mobile''), (GET, ''/Account/LoginClients''),
        (POST, ''/Account/LoginMobileClient''), (GET, ''/Clients/TypeSelect/0''),
        (GET, ''/Clients/SchedulerSelect''), (GET, ''/Clients/TimeSelect''),
        (POST, ''/Clients/TimeSelectScheduler'')]"
proof -
  have l: "fst (login (routes vendor) (mobile loginOnlyConfig) newClient) = Inr True"
    by (rule completeBooking_login_only)
  have t: "BookingConfig.time loginOnlyConfig = None"
    by (simp add: loginOnlyConfig_def)
  then have n: "BookingConfig.date loginOnlyConfig = None \<or>
           BookingConfig.time loginOnlyConfig = None"
    by simp
  have r: "fst (completeBooking (routes vendor) loginOnlyConfig newClient) =
     Inr \<lparr>success = True,
          message = Some ''Logged in successfully. Use getAvailableTimes() to see available slots'',
          appointmentId = None, date = None, time = None\<rparr>"
    using completeBooking_without_slot[OF l n] by blast
  show ?thesis using l t r completeBooking_login_only(2) by simp
qed

subsection \<open>A login page without the token\<close>

text \<open>
  What \<^verbatim>\<open>login\<close> does when the body answered to the login page request has no
  match for the token pattern, for every status of that answer: no login submission is
  issued, and the result is false unless the status is 302. A status from 200 to 299 is
  accepted and the missing token gives false; any other status is raised as an error by
  the client, and the catch block of \<^verbatim>\<open>login\<close> returns true when the status of
  the error's response is 302.
\<close>

lemma login_page_without_token:
  assumes "Response code hs b \<in> set (answers ''/Account/LoginClients'' (issued s (snd (login srv m s))))"
    and "\<forall>tok. extractToken b \<noteq> Inr (Some tok)"
  shows "fst (login srv m s) = Inr (code = 302) \<and>
         answers ''/Account/LoginMobileClient'' (issued s (snd (login srv m s))) = []"
proof (cases rule: login_cases[of srv m s])
  case (invalid x1 s1)
  then show ?thesis using assms
    by (simp add: issued_def) (simp add: url_of_line)
next
  case (page_failed x1 x2 s2 ok)
  have u: "url (fst x1) = ''/Validate/Mobile''" "url (fst x2) = ''/Account/LoginClients''"
    using page_failed(3,4) by (simp_all add: url_of_line)
  have o: "snd x2 = Response code hs b" using assms(1) page_failed(1,2) u by (simp add: issued_def)
  show ?thesis using page_failed(1,2,6) u o by (simp add: issued_def)
next
  case (no_token x1 x2 s2 c h d)
  have u: "url (fst x1) = ''/Validate/Mobile''" "url (fst x2) = ''/Account/LoginClients''"
    using no_token(3,4) by (simp_all add: url_of_line)
  have o: "snd x2 = Response code hs b" using assms(1) no_token(1,2) u by (simp add: issued_def)
  then have "code \<noteq> 302" using no_token(5,6) by (auto simp: defaultValidateStatus_def)
  then show ?thesis using no_token(1,2) u by (simp add: issued_def)
next
  case (submitted x1 x2 x3 s3 c h d tok)
  have u: "url (fst x1) = ''/Validate/Mobile''" "url (fst x2) = ''/Account/LoginClients''"
    "url (fst x3) = ''/Account/LoginMobileClient''"
    using submitted(3,4,8) by (simp_all add: url_of_line)
  have o: "snd x2 = Response code hs b" using assms(1) submitted(1,2) u by (simp add: issued_def)
  then show ?thesis using submitted(5,7) assms(2) by simp
qed

text \<open>
  Claim C8. For every login page body in which the token pattern does not match,
  \<^verbatim>\<open>login\<close> returns false and no login submission is issued. The code breaks the
  first half on one input: the login page request is answered with the final status 302
  and a body without the token field. The client raises the 302 as an error, and the
  catch block of \<^verbatim>\<open>login\<close>, written for a redirect on the login submission,
  covers the page request as well and returns true. The run consists of the validation
  call and the page request; no login submission is issued.
\<close>

theorem login_page_redirect:
  "answers ''/Account/LoginClients''
     (issued newClient (snd (login (routes [(''/Account/LoginClients'', Response 302 None (Text barePageHtml))])
         ''0544458876'' newClient)))
     = [Response 302 None (Text barePageHtml)] \<and>
   tokenMatch barePageHtml = None \<and>
   fst (login (routes [(''/Account/LoginClients'', Response 302 None (Text barePageHtml))])
         ''0544458876'' newClient) = Inr True \<and>
   map endpoint
     (issued newClient (snd (login (routes [(''/Account/LoginClients'', Response 302 None (Text barePageHtml))])
         ''0544458876'' newClient)))
     = [(POST, ''/Validate/Mobile''), (GET, ''/Account/LoginClients'')]"
  by (simp add: run_defs token_demo endpoint_def validateMobileRequest_def loginPageRequest_def)

subsection \<open>The identifiers on the wire\<close>

text \<open>
  Claim C9, as amended. With two or more identifiers, \<^verbatim>\<open>getAvailableTimes\<close> reads the
  first one only: the call for type selection carries no \<^verbatim>\<open>ids\<close> parameter, and each
  of the three later calls carries the first identifier as a number. The single call of
  \<^verbatim>\<open>getNextWeekTimes\<close> and the page call of \<^verbatim>\<open>bookAppointment\<close> carry the
  identifiers joined by commas; the booking call itself carries none.
\<close>

theorem ids_parameter:
  "getAvailableTimes srv (x # y # rest) sch br = getAvailableTimes srv [x] sch br \<and>
   map idsOf (issued s (snd (getAvailableTimes srv (x # y # rest) sch br s))) \<noteq> [] \<and>
   prefix (map idsOf (issued s (snd (getAvailableTimes srv (x # y # rest) sch br s))))
          [None, Some (Num x), Some (Num x), Some (Num x)] \<and>
   map idsOf (issued s (snd (getNextWeekTimes srv (x # y # rest) sch br s)))
     = [Some (Str (joinIds (x # y # rest)))] \<and>
   map idsOf (issued s (snd (bookAppointment srv (x # y # rest) sch d t len s))) \<noteq> [] \<and>
   prefix (map idsOf (issued s (snd (bookAppointment srv (x # y # rest) sch d t len s))))
          [Some (Str (joinIds (x # y # rest))), None] \<and>
   joinIds (x # y # rest) = string_of_int x @ '','' @ joinIds (y # rest)"
proof -
  obtain k where k: "k \<in> {1, 2, 3, 4::nat}"
    and i: "map idsOf (issued s (snd (getAvailableTimes srv (x # y # rest) sch br s)))
       = take k [None, Some (firstId (x # y # rest)), Some (firstId (x # y # rest)), Some (firstId (x # y # rest))]"
    by (rule getAvailableTimes_endpoints)
  have a: "map idsOf (issued s (snd (getAvailableTimes srv (x # y # rest) sch br s))) \<noteq> [] \<and>
    prefix (map idsOf (issued s (snd (getAvailableTimes srv (x # y # rest) sch br s))))
          [None, Some (Num x), Some (Num x), Some (Num x)]"
    unfolding i using k by (auto simp: take_Suc_Cons numeral_2_eq_2 numeral_3_eq_3)
  have b: "map idsOf (issued s (snd (bookAppointment srv (x # y # rest) sch d t len s))) \<noteq> [] \<and>
   prefix (map idsOf (issued s (snd (bookAppointment srv (x # y # rest) sch d t len s))))
          [Some (Str (joinIds (x # y # rest))), None]"
    using bookAppointment_ids[of s srv "x # y # rest" sch d t len] by auto
  have c: "joinIds (x # y # rest) = string_of_int x @ '','' @ joinIds (y # rest)"
    by (simp add: joinIds_def)
  show ?thesis using a b c getNextWeekTimes_ids getAvailableTimes_first_only by blast
qed

theorem ids_parameter_witness:
  "map idsOf (issued newClient (snd (getAvailableTimes (routes []) [37331, 3928] 6132 0 newClient)))
     = [None, Some (Num 37331), Some (Num 37331), Some (Num 37331)] \<and>
   map idsOf (issued newClient (snd (getNextWeekTimes (routes []) [37331, 3928] 6132 0 newClient)))
     = [Some (Str ''37331,3928'')]"
proof -
  have "map idsOf (issued newClient (snd (getNextWeekTimes (routes []) [37331, 3928] 6132 0 newClient)))
     = [Some (Str (joinIds [37331, 3928]))]"
    using ids_parameter[of "routes []" 37331 3928 "[]" 6132 0 newClient] by blast
  then show ?thesis
    by (simp add: getAvailableTimes_demo joinIds_def string_of_int_demo)
qed

text \<open>
  The claim as stated has the first identifier on all four calls. Against a server that
  accepts everything, four calls are issued and the first of them, the type selection,
  has no \<^verbatim>\<open>ids\<close> parameter.
\<close>

theorem ids_parameter_counterexample:
  "map idsOf (issued newClient (snd (getAvailableTimes (routes []) [37331, 3928] 6132 0 newClient)))
     = [None, Some (Num 37331), Some (Num 37331), Some (Num 37331)] \<and>
   map endpoint (issued newClient (snd (getAvailableTimes (routes []) [37331, 3928] 6132 0 newClient)))
     = [(GET, ''/Clients/TypeSelect/0''), (GET, ''/Clients/SchedulerSelect''),
        (GET, ''/Clients/TimeSelect''), (POST, ''/Clients/TimeSelectScheduler'')]"
  by (simp add: getAvailableTimes_demo) (simp add: wizardSequence_def)

subsection \<open>A response replaces the store\<close>

text \<open>
  Claim C10. A response with \<^verbatim>\<open>Set-Cookie\<close> lines replaces the store: what it holds
  afterwards does not depend on what it held before, its names are the names of this
  response, and an earlier entry whose name this response does not set is gone. A
  response without such lines leaves the store as it was. The client applies this to its
  store at every response it accepts (\<open>send_stores_cookies\<close>).
\<close>

theorem captureCookies_supersedes:
  "captureCookies (Some hs) old = captureCookies (Some hs) [] \<and>
   set (map cookieName (captureCookies (Some hs) old)) = fst ` set (parsedCookies hs) \<and>
   (\<forall>e \<in> set old. cookieName e \<notin> fst ` set (parsedCookies hs) \<longrightarrow>
                    e \<notin> set (captureCookies (Some hs) old)) \<and>
   captureCookies None old = old"
proof -
  have s: "captureCookies (Some hs) old = map cookieEntry (cookieMap hs)"
    by (simp add: captureCookies_def)
  have 2: "set (map cookieName (captureCookies (Some hs) old)) = fst ` set (parsedCookies hs)"
    unfolding s names_store by (simp add: cookieMap_keys)
  have 3: "e \<notin> set (captureCookies (Some hs) old)"
    if "cookieName e \<notin> fst ` set (parsedCookies hs)" for e
  proof
    assume "e \<in> set (captureCookies (Some hs) old)"
    then have "cookieName e \<in> set (map cookieName (captureCookies (Some hs) old))" by simp
    with 2 that show False by simp
  qed
  show ?thesis using 2 3 by (simp add: captureCookies_def)
qed

theorem captureCookies_supersedes_witness:
  "captureCookies (Some [''auth=abc; path=/; HttpOnly'']) [''sid=1'', ''lang=he''] = [''auth=abc''] \<and>
   ''sid=1'' \<notin> set (captureCookies (Some [''auth=abc; path=/; HttpOnly'']) [''sid=1'', ''lang=he'']) \<and>
   captureCookies None [''sid=1'', ''lang=he''] = [''sid=1'', ''lang=he''] \<and>
   sessionCookies (snd (send (routes vendor) defaultValidateStatus loginPageRequest newClient))
     = [''sid=1'', ''lang=he''] \<and>
   sessionCookies (snd (login (routes vendor) ''0544458876'' newClient)) = [''auth=abc'']"
proof -
  have p: "parsedCookies [''auth=abc; path=/; HttpOnly''] = [(''auth'', ''abc'')]"
    by (simp add: parsedCookies_def List.map_filter_simps parseCookie_def trim_def js_whitespace_def)
  have n: "cookieName ''sid=1'' \<notin> fst ` set (parsedCookies [''auth=abc; path=/; HttpOnly''])"
    by (simp add: p cookieName_def)
  have m: "''sid=1'' \<in> set [''sid=1'', ''lang=he'']" by simp
  have "''sid=1'' \<notin> set (captureCookies (Some [''auth=abc; path=/; HttpOnly'']) [''sid=1'', ''lang=he''])"
    using captureCookies_supersedes[of "[''auth=abc; path=/; HttpOnly'']" "[''sid=1'', ''lang=he'']"] m n
    by blast
  moreover have "captureCookies (Some [''auth=abc; path=/; HttpOnly'']) [''sid=1'', ''lang=he''] = [''auth=abc'']"
    by (simp add: vendor_cookies)
  ultimately show ?thesis
    by (simp add: captureCookies_def[of None] vendor_store)
qed

end
